theory Spec2Isabelle
  imports Main
begin

section \<open>Chunk keys\<close>

text \<open>
  A \<^verbatim>\<open>ChunkKey\<close> is a \<^verbatim>\<open>std::vector<int>\<close>: (db_id, table_id, column_id, fragment_id
  [, subchunk_id]).  The components are C++ \<^verbatim>\<open>int\<close>s; they are modelled as mathematical
  integers, and the two places where the 32-bit range matters
  (\<^verbatim>\<open>std::numeric_limits<int>::max()\<close> and the increment of the column loop) are written
  out.
\<close>

type_synonym chunk_key = "int list"

definition CHUNK_KEY_DB_IDX :: nat where "CHUNK_KEY_DB_IDX = 0"
definition CHUNK_KEY_TABLE_IDX :: nat where "CHUNK_KEY_TABLE_IDX = 1"
definition CHUNK_KEY_COLUMN_IDX :: nat where "CHUNK_KEY_COLUMN_IDX = 2"
definition CHUNK_KEY_FRAGMENT_IDX :: nat where "CHUNK_KEY_FRAGMENT_IDX = 3"

definition INT_MAX :: int where "INT_MAX = 2147483647"

definition MAX_REFRESH_TIME_IN_SECONDS :: int where
  "MAX_REFRESH_TIME_IN_SECONDS = 60 * 60"

text \<open>
  How a call can end without returning: an exception of a collaborator (the refresh code
  catches \<^verbatim>\<open>std::runtime_error\<close> only, so an exception is either of that class, or a
  class derived from it, or of another class), the \<^verbatim>\<open>PostEvictionRefreshException\<close> the
  refresh code throws around a caught exception, a failed \<^verbatim>\<open>CHECK\<close> (the process aborts;
  no handler runs), or undefined behaviour (an index beyond the end of a vector, signed
  overflow).
\<close>

datatype exception = StdRuntimeError string | OtherException string

datatype failure =
    Thrown exception
  | PostEvictionRefreshException exception
  | CheckFailed
  | UndefinedBehaviour

text \<open>\<^verbatim>\<open>chunk_key[i]\<close>: \<^verbatim>\<open>operator[]\<close> of a vector, undefined beyond the end.\<close>

definition key_at :: "chunk_key \<Rightarrow> nat \<Rightarrow> failure + int" where
  "key_at k i = (if i < length k then Inr (k ! i) else Inl UndefinedBehaviour)"

text \<open>\<^verbatim>\<open>ChunkKey table_key{chunk_key[CHUNK_KEY_DB_IDX], chunk_key[CHUNK_KEY_TABLE_IDX]}\<close>\<close>

definition table_key_of :: "chunk_key \<Rightarrow> failure + chunk_key" where
  "table_key_of k =
     (case key_at k CHUNK_KEY_DB_IDX of Inl e \<Rightarrow> Inl e | Inr db_id \<Rightarrow>
      case key_at k CHUNK_KEY_TABLE_IDX of Inl e \<Rightarrow> Inl e | Inr table_id \<Rightarrow>
        Inr [db_id, table_id])"

text \<open>
  Modelled from the spec: \<^verbatim>\<open>isTableKey\<close>, \<^verbatim>\<open>isVarLenKey\<close> and \<^verbatim>\<open>isVarLenDataKey\<close> are
  declared outside the source files at hand.  The spec: a table prefix is the 2-tuple
  (db_id, table_id); the optional 5th element distinguishes the two buffers of a
  variable-length column, 1 = data, 2 = index.
\<close>

definition isTableKey :: "chunk_key \<Rightarrow> bool" where
  "isTableKey k = (length k = 2)"

definition isVarLenKey :: "chunk_key \<Rightarrow> bool" where
  "isVarLenKey k = (length k = 5)"

definition isVarLenDataKey :: "chunk_key \<Rightarrow> bool" where
  "isVarLenDataKey k = (length k = 5 \<and> k ! 4 = 1)"




definition is_prefix_of :: "chunk_key \<Rightarrow> chunk_key \<Rightarrow> bool" where
  "is_prefix_of p k = (take (length p) k = p)"

section \<open>Catalog, schema and data wrappers (external collaborators)\<close>

text \<open>
  Modelled from the spec: the catalog, \<^verbatim>\<open>ForeignTable\<close>, \<^verbatim>\<open>ForeignTableSchema\<close> and
  \<^verbatim>\<open>ColumnDescriptor\<close> are declared outside the source files at hand.  The foreign-table
  descriptor carries the wrapper kind (CSV, PARQUET, or another one) and the append-mode
  flag; the schema exposes, for a column id, its logical column, and for each column its
  descriptor.  The two lookups of the schema are parameters (finite tables); a lookup that
  finds nothing is a failed \<^verbatim>\<open>CHECK\<close>.
\<close>

datatype DataWrapperType = CSV | PARQUET | OTHER_KIND string

record column_descriptor =
  columnId :: int
  is_varlen_indeed :: bool
  get_physical_cols :: int

record foreign_table =
  data_wrapper_type :: DataWrapperType
  isAppendMode :: bool
  getLogicalColumn :: "int \<rightharpoonup> column_descriptor"
  getColumnDescriptor :: "int \<rightharpoonup> column_descriptor"

datatype table_descriptor = ForeignTable foreign_table | OtherTable

text \<open>
  A buffer is known by its identity (the code compares and passes \<^verbatim>\<open>AbstractBuffer*\<close>):
  a buffer of the caller, the buffer the cache owns for a chunk key, or a buffer allocated
  by the manager for the staging map (numbered by allocation).
\<close>

datatype buffer_ref = CallerBuffer nat | CacheBuffer chunk_key | StagingBuffer nat

record chunk_metadata =
  numBytes :: nat
  numElements :: nat

type_synonym chunk_metadata_vector = "(chunk_key \<times> chunk_metadata) list"

type_synonym buffer_map = "(chunk_key \<times> buffer_ref) list"

text \<open>
  The data wrapper objects held in \<^verbatim>\<open>data_wrapper_map_\<close>.  What a wrapper does when called
  depends on the source files; it is a parameter of the model (record \<open>world\<close> below),
  indexed by the table key of the wrapper.
\<close>

datatype wrapper_class = CsvDataWrapper | ParquetDataWrapper

record data_wrapper =
  wrapper_class :: wrapper_class
  wrapper_db_id :: int
  wrapper_table :: foreign_table
  isRestored :: bool

record world =
  catalog :: "int \<rightharpoonup> (int \<rightharpoonup> table_descriptor)"
  populateChunkMetadata :: "chunk_key \<Rightarrow> exception + chunk_metadata_vector"
  populateChunkBuffers :: "chunk_key \<Rightarrow> buffer_map \<Rightarrow> exception option"
  serializeDataWrapperInternals :: "chunk_key \<Rightarrow> string \<Rightarrow> exception option"
  restoreDataWrapperInternals ::
    "chunk_key \<Rightarrow> string \<Rightarrow> chunk_metadata_vector \<Rightarrow> exception option"
  cacheMetadataVec_fault :: "chunk_metadata_vector \<Rightarrow> exception option"
  isDirty :: "buffer_ref \<Rightarrow> bool"
  clock_now :: "nat \<Rightarrow> int"
  ticks_per_second :: int

section \<open>The foreign storage cache\<close>

text \<open>
  Modelled from the spec: \<^verbatim>\<open>ForeignStorageCache\<close> is not among the source files at hand.
  The cache owns a metadata store and a chunk-buffer store keyed by chunk key, the
  buffers it has handed out for caching and not yet promoted, and per table prefix a
  directory on disk that holds \<^verbatim>\<open>wrapper_metadata.json\<close> and what a later process can
  recover.
\<close>

record ForeignStorageCache =
  cached_metadata :: chunk_metadata_vector
  cached_chunks :: "chunk_key list"
  pending_chunks :: "chunk_key list"
  on_disk_metadata :: "chunk_key \<rightharpoonup> chunk_metadata_vector"
  cache_directory :: "chunk_key \<Rightarrow> string"
  cache_files :: "string set"

definition getCacheDirectoryForTablePrefix :: "ForeignStorageCache \<Rightarrow> chunk_key \<Rightarrow> string" where
  "getCacheDirectoryForTablePrefix c table_key = cache_directory c table_key"

definition wrapper_metadata_path :: "ForeignStorageCache \<Rightarrow> chunk_key \<Rightarrow> string" where
  "wrapper_metadata_path c table_key =
     getCacheDirectoryForTablePrefix c table_key @ ''/wrapper_metadata.json''"

definition getCachedChunkIfExists :: "ForeignStorageCache \<Rightarrow> chunk_key \<Rightarrow> buffer_ref option" where
  "getCachedChunkIfExists c k = (if k \<in> set (cached_chunks c) then Some (CacheBuffer k) else None)"

definition getCachedChunksForKeyPrefix :: "ForeignStorageCache \<Rightarrow> chunk_key \<Rightarrow> chunk_key list" where
  "getCachedChunksForKeyPrefix c p = filter (is_prefix_of p) (cached_chunks c)"

definition isMetadataCached :: "ForeignStorageCache \<Rightarrow> chunk_key \<Rightarrow> bool" where
  "isMetadataCached c k = (k \<in> set (map fst (cached_metadata c)))"

definition hasCachedMetadataForKeyPrefix :: "ForeignStorageCache \<Rightarrow> chunk_key \<Rightarrow> bool" where
  "hasCachedMetadataForKeyPrefix c p = list_ex (\<lambda>e. is_prefix_of p (fst e)) (cached_metadata c)"

definition getCachedMetadataVecForKeyPrefix ::
  "ForeignStorageCache \<Rightarrow> chunk_metadata_vector \<Rightarrow> chunk_key \<Rightarrow> chunk_metadata_vector" where
  "getCachedMetadataVecForKeyPrefix c out p =
     out @ filter (\<lambda>e. is_prefix_of p (fst e)) (cached_metadata c)"

definition cacheMetadataVec ::
  "ForeignStorageCache \<Rightarrow> chunk_metadata_vector \<Rightarrow> ForeignStorageCache" where
  "cacheMetadataVec c vec =
     c\<lparr>cached_metadata :=
         filter (\<lambda>e. fst e \<notin> set (map fst vec)) (cached_metadata c) @ vec\<rparr>"

definition getChunkBuffersForCaching ::
  "ForeignStorageCache \<Rightarrow> chunk_key list \<Rightarrow> buffer_map \<times> ForeignStorageCache" where
  "getChunkBuffersForCaching c keys =
     (map (\<lambda>k. (k, CacheBuffer k)) keys, c\<lparr>pending_chunks := pending_chunks c @ keys\<rparr>)"

definition cacheTableChunks :: "ForeignStorageCache \<Rightarrow> chunk_key list \<Rightarrow> ForeignStorageCache" where
  "cacheTableChunks c keys =
     c\<lparr>cached_chunks :=
         cached_chunks c @ filter (\<lambda>k. k \<notin> set (cached_chunks c)) (remdups keys),
       pending_chunks := filter (\<lambda>k. k \<notin> set keys) (pending_chunks c)\<rparr>"

definition clearForTablePrefix :: "ForeignStorageCache \<Rightarrow> chunk_key \<Rightarrow> ForeignStorageCache" where
  "clearForTablePrefix c p =
     c\<lparr>cached_metadata := filter (\<lambda>e. \<not> is_prefix_of p (fst e)) (cached_metadata c),
       cached_chunks := filter (\<lambda>k. \<not> is_prefix_of p k) (cached_chunks c),
       pending_chunks := filter (\<lambda>k. \<not> is_prefix_of p k) (pending_chunks c),
       cache_files := cache_files c - {wrapper_metadata_path c p}\<rparr>"

definition recoverCacheForTable ::
  "ForeignStorageCache \<Rightarrow> chunk_metadata_vector \<Rightarrow> chunk_key \<Rightarrow> bool \<times> chunk_metadata_vector" where
  "recoverCacheForTable c out p =
     (case on_disk_metadata c p of None \<Rightarrow> (False, out) | Some v \<Rightarrow> (True, out @ v))"

section \<open>The foreign storage manager\<close>

text \<open>
  Calls that leave the manager (to a wrapper, to a mutator of the cache, to a buffer, to
  the log) are recorded in order, so that a claim about which calls a function makes can
  be stated.
\<close>

datatype event =
    PopulateChunkMetadata chunk_key
  | PopulateChunkBuffers chunk_key buffer_map
  | SerializeDataWrapperInternals chunk_key string
  | RestoreDataWrapperInternals chunk_key string chunk_metadata_vector
  | CopyTo buffer_ref buffer_ref nat
  | GetChunkBuffersForCaching "chunk_key list"
  | CacheTableChunks "chunk_key list"
  | CacheMetadataVec chunk_metadata_vector
  | ClearForTablePrefix chunk_key
  | LogWarning chunk_key int

text \<open>
  The members of \<^verbatim>\<open>ForeignStorageMgr\<close>.  \<^verbatim>\<open>foreign_storage_cache_\<close> is a pointer that may
  be null; the constructor sets \<^verbatim>\<open>is_cache_enabled_\<close> to whether it is not.  The mutexes
  are left out: one call is modelled at a time.
\<close>

record ForeignStorageMgr =
  data_wrapper_map :: "chunk_key \<rightharpoonup> data_wrapper"
  temp_chunk_buffer_map :: "chunk_key \<rightharpoonup> buffer_ref"
  foreign_storage_cache :: "ForeignStorageCache option"
  buffers_allocated :: nat
  clock_reads :: nat
  calls :: "event list"

definition is_cache_enabled :: "ForeignStorageMgr \<Rightarrow> bool" where
  "is_cache_enabled s = (foreign_storage_cache s \<noteq> None)"

definition emit :: "event \<Rightarrow> ForeignStorageMgr \<Rightarrow> ForeignStorageMgr" where
  "emit e s = s\<lparr>calls := calls s @ [e]\<rparr>"

definition get_foreign_table :: "world \<Rightarrow> chunk_key \<Rightarrow> failure + foreign_table" where
  "get_foreign_table w chunk_key =
     (if \<not> length chunk_key \<ge> 2 then Inl CheckFailed
      else
        let db_id = chunk_key ! CHUNK_KEY_DB_IDX;
            table_id = chunk_key ! CHUNK_KEY_TABLE_IDX
        in case catalog w db_id of
             None \<Rightarrow> Inl CheckFailed
           | Some cat \<Rightarrow>
               (case cat table_id of
                  None \<Rightarrow> Inl CheckFailed
                | Some OtherTable \<Rightarrow> Inl CheckFailed
                | Some (ForeignTable foreign_table) \<Rightarrow> Inr foreign_table))"

definition hasDataWrapperForChunk :: "ForeignStorageMgr \<Rightarrow> chunk_key \<Rightarrow> failure + bool" where
  "hasDataWrapperForChunk s chunk_key =
     (case table_key_of chunk_key of
        Inl e \<Rightarrow> Inl e
      | Inr table_key \<Rightarrow> Inr (data_wrapper_map s table_key \<noteq> None))"

definition getDataWrapper :: "ForeignStorageMgr \<Rightarrow> chunk_key \<Rightarrow> failure + data_wrapper" where
  "getDataWrapper s chunk_key =
     (case table_key_of chunk_key of
        Inl e \<Rightarrow> Inl e
      | Inr table_key \<Rightarrow>
          (case data_wrapper_map s table_key of
             None \<Rightarrow> Inl CheckFailed
           | Some data_wrapper \<Rightarrow> Inr data_wrapper))"

text \<open>
  A function that changes the manager returns the manager on both ways out: \<open>Inr\<close> with
  the value returned, \<open>Inl\<close> with the failure, each with the manager as it is at that
  point (what a caller that catches the exception finds).
\<close>

type_synonym 'a outcome = "failure \<times> ForeignStorageMgr + 'a \<times> ForeignStorageMgr"

definition createDataWrapperIfNotExists ::
  "world \<Rightarrow> ForeignStorageMgr \<Rightarrow> chunk_key \<Rightarrow> bool outcome" where
  "createDataWrapperIfNotExists w s chunk_key =
     (case table_key_of chunk_key of
        Inl e \<Rightarrow> Inl (e, s)
      | Inr table_key \<Rightarrow>
          if data_wrapper_map s table_key = None then
            (let db_id = chunk_key ! CHUNK_KEY_DB_IDX in
             case get_foreign_table w chunk_key of
               Inl e \<Rightarrow> Inl (e, s)
             | Inr foreign_table \<Rightarrow>
                 if data_wrapper_type foreign_table = CSV then
                   Inr (True, s\<lparr>data_wrapper_map := (data_wrapper_map s)(table_key \<mapsto>
                     \<lparr>wrapper_class = CsvDataWrapper, wrapper_db_id = db_id,
                      wrapper_table = foreign_table, isRestored = False\<rparr>)\<rparr>)
                 else if data_wrapper_type foreign_table = PARQUET then
                   Inr (True, s\<lparr>data_wrapper_map := (data_wrapper_map s)(table_key \<mapsto>
                     \<lparr>wrapper_class = ParquetDataWrapper, wrapper_db_id = db_id,
                      wrapper_table = foreign_table, isRestored = False\<rparr>)\<rparr>)
                 else Inl (Thrown (StdRuntimeError ''Unsupported data wrapper''), s))
          else Inr (False, s))"

definition isDatawrapperRestored :: "ForeignStorageMgr \<Rightarrow> chunk_key \<Rightarrow> failure + bool" where
  "isDatawrapperRestored s chunk_key =
     (case hasDataWrapperForChunk s chunk_key of
        Inl e \<Rightarrow> Inl e
      | Inr has \<Rightarrow>
          if \<not> has then Inr False
          else (case getDataWrapper s chunk_key of
                  Inl e \<Rightarrow> Inl e
                | Inr data_wrapper \<Rightarrow> Inr (isRestored data_wrapper)))"


text \<open>
  \<^verbatim>\<open>recoverDataWrapperFromDisk\<close>.  A wrapper that has restored its internals reports
  \<^verbatim>\<open>isRestored()\<close> from then on (modelled from the spec: is-restored is true iff the
  wrapper is usable without a metadata scan in this process).
\<close>

definition recoverDataWrapperFromDisk ::
  "world \<Rightarrow> ForeignStorageMgr \<Rightarrow> chunk_key \<Rightarrow> bool outcome" where
  "recoverDataWrapperFromDisk w s table_key =
     (case foreign_storage_cache s of
        None \<Rightarrow> Inr (False, s)
      | Some c \<Rightarrow>
          let (has_cached_metadata, chunk_metadata) =
                (if hasCachedMetadataForKeyPrefix c table_key
                 then (True, getCachedMetadataVecForKeyPrefix c [] table_key)
                 else recoverCacheForTable c [] table_key);
              filepath = getCacheDirectoryForTablePrefix c table_key @ ''/wrapper_metadata.json''
          in if filepath \<in> cache_files c \<and> has_cached_metadata then
               (case getDataWrapper s table_key of
                  Inl e \<Rightarrow> Inl (e, s)
                | Inr data_wrapper \<Rightarrow>
                    let s1 = emit (RestoreDataWrapperInternals table_key filepath chunk_metadata) s
                    in case restoreDataWrapperInternals w table_key filepath chunk_metadata of
                         Some ex \<Rightarrow> Inl (Thrown ex, s1)
                       | None \<Rightarrow>
                           Inr (True, s1\<lparr>data_wrapper_map := (data_wrapper_map s1)
                                  ([table_key ! CHUNK_KEY_DB_IDX, table_key ! CHUNK_KEY_TABLE_IDX]
                                     \<mapsto> data_wrapper\<lparr>isRestored := True\<rparr>)\<rparr>))
             else Inr (False, s))"

text \<open>
  The column loop of \<^verbatim>\<open>getChunkBuffersToPopulate\<close>:
  \<^verbatim>\<open>for (column_id = logical_column_id; column_id <= last_column_id; column_id++)\<close>, where \<open>last_column_id\<close> is
  \<^verbatim>\<open>logical_column_id + get_physical_cols()\<close>.  Incrementing \<^verbatim>\<open>INT_MAX\<close> is undefined.
\<close>

function column_loop ::
  "foreign_table \<Rightarrow> int \<Rightarrow> int \<Rightarrow> int \<Rightarrow> int \<Rightarrow> int \<Rightarrow> chunk_key list \<Rightarrow> failure + chunk_key list" where
  "column_loop foreign_table db_id table_id fragment_id column_id last_column_id chunk_keys =
     (if column_id \<le> last_column_id then
        (case getColumnDescriptor foreign_table column_id of
           None \<Rightarrow> Inl CheckFailed
         | Some column \<Rightarrow>
             let chunk_keys' =
                   (if is_varlen_indeed column
                    then chunk_keys @ [[db_id, table_id, columnId column, fragment_id, 1],
                                       [db_id, table_id, columnId column, fragment_id, 2]]
                    else chunk_keys @ [[db_id, table_id, columnId column, fragment_id]])
             in if column_id = INT_MAX then Inl UndefinedBehaviour
                else column_loop foreign_table db_id table_id fragment_id (column_id + 1) last_column_id
                       chunk_keys')
      else Inr chunk_keys)"
  by pat_completeness auto
termination
  by (relation "measure (\<lambda>(foreign_table, db_id, table_id, fragment_id, column_id, last_column_id, chunk_keys).
                   nat (last_column_id - column_id + 1))") auto

declare column_loop.simps [simp del]

text \<open>\<^verbatim>\<open>chunk_buffer_map[chunk_key] = buffer\<close> on a \<^verbatim>\<open>std::map\<close>\<close>

fun buffer_map_set :: "buffer_map \<Rightarrow> chunk_key \<Rightarrow> buffer_ref \<Rightarrow> buffer_map" where
  "buffer_map_set [] k b = [(k, b)]"
| "buffer_map_set ((k', b') # m) k b =
     (if k' = k then (k, b) # m else (k', b') # buffer_map_set m k b)"

text \<open>
  The loop over the siblings when the cache is disabled: each key other than the
  destination gets a new buffer, owned by the staging map.
\<close>

fun stage_siblings ::
  "chunk_key \<Rightarrow> chunk_key list \<Rightarrow> buffer_map \<Rightarrow> ForeignStorageMgr \<Rightarrow> buffer_map \<times> ForeignStorageMgr" where
  "stage_siblings destination_chunk_key [] chunk_buffer_map s = (chunk_buffer_map, s)"
| "stage_siblings destination_chunk_key (chunk_key # rest) chunk_buffer_map s =
     (if chunk_key \<noteq> destination_chunk_key then
        let b = StagingBuffer (buffers_allocated s);
            s' = s\<lparr>temp_chunk_buffer_map := (temp_chunk_buffer_map s)(chunk_key \<mapsto> b),
                   buffers_allocated := Suc (buffers_allocated s)\<rparr>
        in stage_siblings destination_chunk_key rest (buffer_map_set chunk_buffer_map chunk_key b) s'
      else stage_siblings destination_chunk_key rest chunk_buffer_map s)"

text \<open>
  \<^verbatim>\<open>getChunkBuffersToPopulate\<close>; \<open>chunk_keys\<close> is the vector passed by reference, returned
  with the buffer map.
\<close>

definition getChunkBuffersToPopulate ::
  "world \<Rightarrow> ForeignStorageMgr \<Rightarrow> chunk_key \<Rightarrow> buffer_ref \<Rightarrow> chunk_key list \<Rightarrow>
     (buffer_map \<times> chunk_key list) outcome" where
  "getChunkBuffersToPopulate w s destination_chunk_key destination_buffer chunk_keys0 =
     (if \<not> CHUNK_KEY_FRAGMENT_IDX < length destination_chunk_key then Inl (UndefinedBehaviour, s)
      else
        let db_id = destination_chunk_key ! CHUNK_KEY_DB_IDX;
            table_id = destination_chunk_key ! CHUNK_KEY_TABLE_IDX;
            destination_column_id = destination_chunk_key ! CHUNK_KEY_COLUMN_IDX;
            fragment_id = destination_chunk_key ! CHUNK_KEY_FRAGMENT_IDX
        in case get_foreign_table w destination_chunk_key of
             Inl e \<Rightarrow> Inl (e, s)
           | Inr foreign_table \<Rightarrow>
               (case getLogicalColumn foreign_table destination_column_id of
                  None \<Rightarrow> Inl (CheckFailed, s)
                | Some logical_column \<Rightarrow>
                    let logical_column_id = columnId logical_column;
                        last_column_id = logical_column_id + get_physical_cols logical_column
                    in if last_column_id > INT_MAX \<or> last_column_id < - INT_MAX - 1 then Inl (UndefinedBehaviour, s)
                       else
                         (case column_loop foreign_table db_id table_id fragment_id
                                 logical_column_id last_column_id chunk_keys0 of
                            Inl e \<Rightarrow> Inl (e, s)
                          | Inr chunk_keys \<Rightarrow>
                              (case foreign_storage_cache s of
                                 Some c \<Rightarrow>
                                   let (chunk_buffer_map, c') = getChunkBuffersForCaching c chunk_keys
                                   in Inr ((chunk_buffer_map, chunk_keys),
                                           emit (GetChunkBuffersForCaching chunk_keys)
                                             (s\<lparr>foreign_storage_cache := Some c'\<rparr>))
                               | None \<Rightarrow>
                                   let chunk_buffer_map =
                                         buffer_map_set [] destination_chunk_key destination_buffer
                                   in if length chunk_keys > 1 then
                                        (let (chunk_buffer_map', s') =
                                               stage_siblings destination_chunk_key chunk_keys
                                                 chunk_buffer_map s
                                         in Inr ((chunk_buffer_map', chunk_keys), s'))
                                      else if length chunk_keys \<noteq> 1 then Inl (CheckFailed, s)
                                      else if destination_chunk_key \<noteq> chunk_keys ! 0
                                        then Inl (CheckFailed, s)
                                      else Inr ((chunk_buffer_map, chunk_keys), s)))))"

text \<open>
  \<^verbatim>\<open>fetchBuffer\<close>, in parts.  \<open>prime_data_wrapper\<close> is the statement
  \<^verbatim>\<open>if (createDataWrapperIfNotExists(chunk_key)) { ... }\<close>; \<open>fetchBuffer_miss\<close> is the body
  of \<^verbatim>\<open>if (buffer == nullptr)\<close>; \<open>fetchBuffer_source\<close> ends where the source buffer is
  known (\<^verbatim>\<open>CHECK(buffer)\<close>) and returns the local variables the rest reads.
\<close>

record fetch_locals =
  fl_buffer :: buffer_ref
  fl_cached :: bool
  fl_is_buffer_from_map :: bool
  fl_chunk_keys :: "chunk_key list"

definition prime_data_wrapper ::
  "world \<Rightarrow> ForeignStorageMgr \<Rightarrow> chunk_key \<Rightarrow> unit outcome" where
  "prime_data_wrapper w s chunk_key =
     (case createDataWrapperIfNotExists w s chunk_key of
        Inl e \<Rightarrow> Inl e
      | Inr (created, s1) \<Rightarrow>
          if created then
            (let table_key = [chunk_key ! 0, chunk_key ! 1]
             in case recoverDataWrapperFromDisk w s1 table_key of
                  Inl e \<Rightarrow> Inl e
                | Inr (recovered, s2) \<Rightarrow>
                    if \<not> recovered then
                      (case getDataWrapper s2 table_key of
                         Inl e \<Rightarrow> Inl (e, s2)
                       | Inr data_wrapper \<Rightarrow>
                           (case populateChunkMetadata w table_key of
                              Inl ex \<Rightarrow> Inl (Thrown ex, emit (PopulateChunkMetadata table_key) s2)
                            | Inr chunk_metadata \<Rightarrow>
                                Inr ((), emit (PopulateChunkMetadata table_key) s2)))
                    else Inr ((), s2))
          else Inr ((), s1))"

definition fetchBuffer_miss ::
  "world \<Rightarrow> ForeignStorageMgr \<Rightarrow> chunk_key \<Rightarrow> buffer_ref \<Rightarrow> fetch_locals outcome" where
  "fetchBuffer_miss w s chunk_key destination_buffer =
     (case prime_data_wrapper w s chunk_key of
        Inl e \<Rightarrow> Inl e
      | Inr (u, s3) \<Rightarrow>
          (case getChunkBuffersToPopulate w s3 chunk_key destination_buffer [] of
             Inl e \<Rightarrow> Inl e
           | Inr (populated, s4) \<Rightarrow>
               (case map_of (fst populated) chunk_key of
                  None \<Rightarrow> Inl (CheckFailed, s4)
                | Some b \<Rightarrow>
                    (case getDataWrapper s4 chunk_key of
                       Inl e \<Rightarrow> Inl (e, s4)
                     | Inr data_wrapper \<Rightarrow>
                         let table_key = [chunk_key ! 0, chunk_key ! 1];
                             s5 = emit (PopulateChunkBuffers table_key (fst populated)) s4
                         in case populateChunkBuffers w table_key (fst populated) of
                              Some ex \<Rightarrow> Inl (Thrown ex, s5)
                            | None \<Rightarrow>
                                Inr (\<lparr>fl_buffer = b, fl_cached = False,
                                      fl_is_buffer_from_map = False,
                                      fl_chunk_keys = snd populated\<rparr>, s5)))))"

definition fetchBuffer_source ::
  "world \<Rightarrow> ForeignStorageMgr \<Rightarrow> chunk_key \<Rightarrow> buffer_ref \<Rightarrow> fetch_locals outcome" where
  "fetchBuffer_source w s chunk_key destination_buffer =
     (if isDirty w destination_buffer then Inl (CheckFailed, s)
      else
        case (case foreign_storage_cache s of
                Some c \<Rightarrow> getCachedChunkIfExists c chunk_key
              | None \<Rightarrow> None) of
          Some b \<Rightarrow>
            Inr (\<lparr>fl_buffer = b, fl_cached = True, fl_is_buffer_from_map = False,
                  fl_chunk_keys = []\<rparr>, s)
        | None \<Rightarrow>
            (case (if \<not> is_cache_enabled s then temp_chunk_buffer_map s chunk_key else None) of
               Some b \<Rightarrow>
                 Inr (\<lparr>fl_buffer = b, fl_cached = True, fl_is_buffer_from_map = True,
                       fl_chunk_keys = []\<rparr>, s)
             | None \<Rightarrow> fetchBuffer_miss w s chunk_key destination_buffer))"

text \<open>
  The rest of \<^verbatim>\<open>fetchBuffer\<close>: the copy into the destination buffer, the removal of a
  consumed staging entry, the promotion of the fanout in the cache.
\<close>

definition fetchBuffer_deliver ::
  "ForeignStorageMgr \<Rightarrow> fetch_locals \<Rightarrow> chunk_key \<Rightarrow> buffer_ref \<Rightarrow> nat \<Rightarrow> unit outcome" where
  "fetchBuffer_deliver s1 l chunk_key destination_buffer num_bytes =
     (let s2 = (if is_cache_enabled s1 \<or> fl_is_buffer_from_map l
                then emit (CopyTo (fl_buffer l) destination_buffer num_bytes) s1 else s1);
          s3 = (if fl_is_buffer_from_map l
                then s2\<lparr>temp_chunk_buffer_map := (temp_chunk_buffer_map s2)(chunk_key := None)\<rparr>
                else s2)
      in case foreign_storage_cache s3 of
           Some c \<Rightarrow>
             if \<not> fl_cached l
             then Inr ((), emit (CacheTableChunks (fl_chunk_keys l))
                             (s3\<lparr>foreign_storage_cache := Some (cacheTableChunks c (fl_chunk_keys l))\<rparr>))
             else Inr ((), s3)
         | None \<Rightarrow> Inr ((), s3))"

definition fetchBuffer ::
  "world \<Rightarrow> ForeignStorageMgr \<Rightarrow> chunk_key \<Rightarrow> buffer_ref \<Rightarrow> nat \<Rightarrow> unit outcome" where
  "fetchBuffer w s chunk_key destination_buffer num_bytes =
     (case fetchBuffer_source w s chunk_key destination_buffer of
        Inl e \<Rightarrow> Inl e
      | Inr (l, s1) \<Rightarrow> fetchBuffer_deliver s1 l chunk_key destination_buffer num_bytes)"

section \<open>Refresh\<close>


text \<open>
  \<^verbatim>\<open>std::chrono::high_resolution_clock::now()\<close>: the readings of the clock are a parameter
  (\<open>clock_now w n\<close> is what the \<open>n\<close>-th reading returns, in ticks), and
  \<^verbatim>\<open>duration_cast<seconds>\<close> truncates towards zero.
\<close>

definition now :: "world \<Rightarrow> ForeignStorageMgr \<Rightarrow> int \<times> ForeignStorageMgr" where
  "now w s = (clock_now w (clock_reads s), s\<lparr>clock_reads := Suc (clock_reads s)\<rparr>)"

definition duration_cast_seconds :: "world \<Rightarrow> int \<Rightarrow> int" where
  "duration_cast_seconds w d =
     (if 0 \<le> d then d div ticks_per_second w else - ((- d) div ticks_per_second w))"

text \<open>The loop that determines the last fragment id from the cached metadata.\<close>

fun last_frag_loop :: "chunk_metadata_vector \<Rightarrow> int \<Rightarrow> failure + int" where
  "last_frag_loop [] last_frag_id = Inr last_frag_id"
| "last_frag_loop (metadata # rest) last_frag_id =
     (case key_at (fst metadata) CHUNK_KEY_FRAGMENT_IDX of
        Inl e \<Rightarrow> Inl e
      | Inr frag \<Rightarrow> last_frag_loop rest (max last_frag_id frag))"

text \<open>The loop that keeps the metadata of the last fragment and above.\<close>

fun new_metadata_loop ::
  "chunk_metadata_vector \<Rightarrow> int \<Rightarrow> chunk_metadata_vector \<Rightarrow> failure + chunk_metadata_vector" where
  "new_metadata_loop [] last_frag_id new_metadata_vec = Inr new_metadata_vec"
| "new_metadata_loop (chunk_metadata # rest) last_frag_id new_metadata_vec =
     (case key_at (fst chunk_metadata) CHUNK_KEY_FRAGMENT_IDX of
        Inl e \<Rightarrow> Inl e
      | Inr frag \<Rightarrow>
          if frag \<ge> last_frag_id
          then new_metadata_loop rest last_frag_id (new_metadata_vec @ [chunk_metadata])
          else new_metadata_loop rest last_frag_id new_metadata_vec)"

text \<open>
  The two statements that populate the buffers of one fragment:
  \<^verbatim>\<open>getChunkBuffersForCaching(chunk_keys_in_fragment)\<close>, then \<^verbatim>\<open>populateChunkBuffers\<close> of
  the wrapper of the table.
\<close>

definition populate_fragment ::
  "world \<Rightarrow> ForeignStorageMgr \<Rightarrow> chunk_key \<Rightarrow> chunk_key list \<Rightarrow> unit outcome" where
  "populate_fragment w s table_key chunk_keys_in_fragment =
     (case foreign_storage_cache s of
        None \<Rightarrow> Inl (UndefinedBehaviour, s)
      | Some c \<Rightarrow>
          let (required_buffers, c') = getChunkBuffersForCaching c chunk_keys_in_fragment;
              s1 = emit (GetChunkBuffersForCaching chunk_keys_in_fragment)
                     (s\<lparr>foreign_storage_cache := Some c'\<rparr>)
          in case getDataWrapper s1 table_key of
               Inl e \<Rightarrow> Inl (e, s1)
             | Inr data_wrapper \<Rightarrow>
                 let s2 = emit (PopulateChunkBuffers table_key required_buffers) s1
                 in case populateChunkBuffers w table_key required_buffers of
                      Some ex \<Rightarrow> Inl (Thrown ex, s2)
                    | None \<Rightarrow> Inr ((), s2))"

record refresh_locals =
  rl_fragment_id :: int
  rl_chunk_keys_in_fragment :: "chunk_key list"
  rl_chunk_keys_to_be_cached :: "chunk_key list"
  rl_total_time :: int
  rl_fragment_refresh_start_time :: int

text \<open>
  The body of \<^verbatim>\<open>if (chunk_key[CHUNK_KEY_FRAGMENT_IDX] != fragment_id)\<close>; the boolean
  returned says whether the loop is left (\<^verbatim>\<open>break\<close>).
\<close>

definition fragment_boundary ::
  "world \<Rightarrow> ForeignStorageMgr \<Rightarrow> chunk_key \<Rightarrow> refresh_locals \<Rightarrow> int \<Rightarrow>
     (bool \<times> refresh_locals) outcome" where
  "fragment_boundary w s table_key l next_fragment_id =
     (case (if length (rl_chunk_keys_in_fragment l) > 0
            then populate_fragment w s table_key (rl_chunk_keys_in_fragment l)
            else Inr ((), s)) of
        Inl e \<Rightarrow> Inl e
      | Inr (u, s1) \<Rightarrow>
          let l1 = l\<lparr>rl_chunk_keys_in_fragment := []\<rparr>;
              (current_time, s2) = now w s1;
              total_time = rl_total_time l1 +
                duration_cast_seconds w (current_time - rl_fragment_refresh_start_time l1)
          in if total_time \<ge> MAX_REFRESH_TIME_IN_SECONDS then
               Inr ((True, l1\<lparr>rl_total_time := total_time\<rparr>),
                    emit (LogWarning table_key (rl_fragment_id l1)) s2)
             else
               let (start_time, s3) = now w s2
               in Inr ((False, l1\<lparr>rl_total_time := total_time,
                                  rl_fragment_refresh_start_time := start_time,
                                  rl_fragment_id := next_fragment_id\<rparr>), s3))"

text \<open>
  The body of the loop over \<^verbatim>\<open>old_chunk_keys\<close>, for one \<open>chunk_key\<close>; the boolean
  returned says whether the loop is left (\<^verbatim>\<open>break\<close>); \<^verbatim>\<open>continue\<close> returns the local
  variables as they are.
\<close>

definition refresh_loop_body ::
  "world \<Rightarrow> chunk_key \<Rightarrow> bool \<Rightarrow> int \<Rightarrow> chunk_key \<Rightarrow> refresh_locals \<Rightarrow> ForeignStorageMgr \<Rightarrow>
     (bool \<times> refresh_locals) outcome" where
  "refresh_loop_body w table_key append_mode last_frag_id chunk_key l s =
     (if append_mode \<and> \<not> CHUNK_KEY_FRAGMENT_IDX < length chunk_key then Inl (UndefinedBehaviour, s)
      else if append_mode \<and> chunk_key ! CHUNK_KEY_FRAGMENT_IDX < last_frag_id
        then Inr ((False, l), s)
      else
        case foreign_storage_cache s of
          None \<Rightarrow> Inl (UndefinedBehaviour, s)
        | Some c \<Rightarrow>
            if isMetadataCached c chunk_key then
              (if \<not> CHUNK_KEY_FRAGMENT_IDX < length chunk_key then Inl (UndefinedBehaviour, s)
               else
                 case (if chunk_key ! CHUNK_KEY_FRAGMENT_IDX \<noteq> rl_fragment_id l
                       then fragment_boundary w s table_key l (chunk_key ! CHUNK_KEY_FRAGMENT_IDX)
                       else Inr ((False, l), s)) of
                   Inl e \<Rightarrow> Inl e
                 | Inr (bl, s1) \<Rightarrow>
                     if fst bl then Inr ((True, snd bl), s1)
                     else if isVarLenKey chunk_key then
                       (if \<not> isVarLenDataKey chunk_key then Inl (CheckFailed, s1)
                        else
                          let index_chunk_key =
                                [chunk_key ! CHUNK_KEY_DB_IDX, chunk_key ! CHUNK_KEY_TABLE_IDX,
                                 chunk_key ! CHUNK_KEY_COLUMN_IDX, chunk_key ! CHUNK_KEY_FRAGMENT_IDX, 2]
                          in Inr ((False,
                                   (snd bl)\<lparr>rl_chunk_keys_in_fragment :=
                                              rl_chunk_keys_in_fragment (snd bl) @
                                                [index_chunk_key, chunk_key],
                                            rl_chunk_keys_to_be_cached :=
                                              rl_chunk_keys_to_be_cached (snd bl) @
                                                [index_chunk_key, chunk_key]\<rparr>), s1))
                     else
                       Inr ((False,
                             (snd bl)\<lparr>rl_chunk_keys_in_fragment :=
                                        rl_chunk_keys_in_fragment (snd bl) @ [chunk_key],
                                      rl_chunk_keys_to_be_cached :=
                                        rl_chunk_keys_to_be_cached (snd bl) @ [chunk_key]\<rparr>), s1))
            else Inr ((False, l), s))"

text \<open>The loop over \<^verbatim>\<open>old_chunk_keys\<close>.\<close>

fun refresh_loop ::
  "world \<Rightarrow> chunk_key \<Rightarrow> bool \<Rightarrow> int \<Rightarrow> chunk_key list \<Rightarrow> refresh_locals \<Rightarrow> ForeignStorageMgr \<Rightarrow>
     refresh_locals outcome" where
  "refresh_loop w table_key append_mode last_frag_id [] l s = Inr (l, s)"
| "refresh_loop w table_key append_mode last_frag_id (chunk_key # rest) l s =
     (case refresh_loop_body w table_key append_mode last_frag_id chunk_key l s of
        Inl e \<Rightarrow> Inl e
      | Inr (bl, s1) \<Rightarrow>
          if fst bl then Inr (snd bl, s1)
          else refresh_loop w table_key append_mode last_frag_id rest (snd bl) s1)"

text \<open>
  What follows the loop: the buffers of the last fragment are populated, and the chunks
  that were populated are promoted in the cache.
\<close>

definition refresh_finish ::
  "world \<Rightarrow> ForeignStorageMgr \<Rightarrow> chunk_key \<Rightarrow> refresh_locals \<Rightarrow> unit outcome" where
  "refresh_finish w s table_key l =
     (case (if length (rl_chunk_keys_in_fragment l) > 0
            then populate_fragment w s table_key (rl_chunk_keys_in_fragment l)
            else Inr ((), s)) of
        Inl e \<Rightarrow> Inl e
      | Inr (u, s5) \<Rightarrow>
          (case foreign_storage_cache s5 of
             None \<Rightarrow> Inl (UndefinedBehaviour, s5)
           | Some c5 \<Rightarrow>
               Inr ((), emit (CacheTableChunks (rl_chunk_keys_to_be_cached l))
                          (s5\<lparr>foreign_storage_cache :=
                                Some (cacheTableChunks c5 (rl_chunk_keys_to_be_cached l))\<rparr>))))"

text \<open>
  The body of the \<^verbatim>\<open>try\<close> block of \<^verbatim>\<open>refreshTableInCache\<close>.  The cache writes the
  metadata durably; a failure of that write is a parameter (\<open>cacheMetadataVec_fault\<close>),
  and a failed call leaves no entry (the spec: the call is atomic).
\<close>

definition refresh_try ::
  "world \<Rightarrow> ForeignStorageMgr \<Rightarrow> chunk_key \<Rightarrow> bool \<Rightarrow> int \<Rightarrow> chunk_metadata_vector \<Rightarrow>
     chunk_key list \<Rightarrow> unit outcome" where
  "refresh_try w s table_key append_mode last_frag_id metadata_vec old_chunk_keys =
     (case (if append_mode then new_metadata_loop metadata_vec last_frag_id []
            else Inr metadata_vec) of
        Inl e \<Rightarrow> Inl (e, s)
      | Inr vec \<Rightarrow>
          (case foreign_storage_cache s of
             None \<Rightarrow> Inl (UndefinedBehaviour, s)
           | Some c \<Rightarrow>
               let s1 = emit (CacheMetadataVec vec) s
               in case cacheMetadataVec_fault w vec of
                    Some ex \<Rightarrow> Inl (Thrown ex, s1)
                  | None \<Rightarrow>
                      let s2 = s1\<lparr>foreign_storage_cache := Some (cacheMetadataVec c vec)\<rparr>;
                          (start_time, s3) = now w s2
                      in if old_chunk_keys \<noteq> [] then
                           (if \<not> CHUNK_KEY_FRAGMENT_IDX < length (old_chunk_keys ! 0)
                            then Inl (UndefinedBehaviour, s3)
                            else
                              case refresh_loop w table_key append_mode last_frag_id old_chunk_keys
                                     \<lparr>rl_fragment_id = old_chunk_keys ! 0 ! CHUNK_KEY_FRAGMENT_IDX,
                                      rl_chunk_keys_in_fragment = [],
                                      rl_chunk_keys_to_be_cached = [],
                                      rl_total_time = 0,
                                      rl_fragment_refresh_start_time = start_time\<rparr> s3 of
                                Inl e \<Rightarrow> Inl e
                              | Inr (l, s4) \<Rightarrow> refresh_finish w s4 table_key l)
                         else Inr ((), s3)))"

text \<open>
  The statements of \<^verbatim>\<open>refreshTableInCache\<close> before the last fragment id is determined,
  the cache being enabled: the wrapper is created if need be (and restored, in append
  mode), the cached chunks of the table are listed, the metadata is scanned and the
  wrapper serialized.  Returned are \<open>append_mode\<close>, \<open>old_chunk_keys\<close> and \<open>metadata_vec\<close>.
\<close>

definition refresh_prepare ::
  "world \<Rightarrow> ForeignStorageMgr \<Rightarrow> chunk_key \<Rightarrow>
     (bool \<times> chunk_key list \<times> chunk_metadata_vector) outcome" where
  "refresh_prepare w s table_key =
     (if \<not> isTableKey table_key then Inl (CheckFailed, s)
      else
        case get_foreign_table w table_key of
          Inl e \<Rightarrow> Inl (e, s)
        | Inr foreign_table \<Rightarrow>
            let append_mode = isAppendMode foreign_table
            in case createDataWrapperIfNotExists w s table_key of
                 Inl e \<Rightarrow> Inl e
               | Inr (created, s1) \<Rightarrow>
                   (case (if created \<and> append_mode
                          then recoverDataWrapperFromDisk w s1 table_key
                          else Inr (False, s1)) of
                      Inl e \<Rightarrow> Inl e
                    | Inr (recovered, s2) \<Rightarrow>
                        (case foreign_storage_cache s2 of
                           None \<Rightarrow> Inl (UndefinedBehaviour, s2)
                         | Some c \<Rightarrow>
                             let old_chunk_keys = getCachedChunksForKeyPrefix c table_key
                             in case getDataWrapper s2 table_key of
                                  Inl e \<Rightarrow> Inl (e, s2)
                                | Inr data_wrapper \<Rightarrow>
                                    let s3 = emit (PopulateChunkMetadata table_key) s2
                                    in case populateChunkMetadata w table_key of
                                         Inl ex \<Rightarrow> Inl (Thrown ex, s3)
                                       | Inr metadata_vec \<Rightarrow>
                                           let path = getCacheDirectoryForTablePrefix c table_key @
                                                        ''/wrapper_metadata.json'';
                                               s4 = emit (SerializeDataWrapperInternals table_key path) s3
                                           in case serializeDataWrapperInternals w table_key path of
                                                Some ex \<Rightarrow> Inl (Thrown ex, s4)
                                              | None \<Rightarrow>
                                                  Inr ((append_mode, old_chunk_keys, metadata_vec),
                                                       s4\<lparr>foreign_storage_cache :=
                                                            Some (c\<lparr>cache_files :=
                                                                     insert path (cache_files c)\<rparr>)\<rparr>))))"

text \<open>
  The last fragment id in append mode (the loop over the cached metadata of the table),
  the eviction of the table otherwise.
\<close>

definition refresh_last_frag_or_clear ::
  "ForeignStorageMgr \<Rightarrow> chunk_key \<Rightarrow> bool \<Rightarrow> int outcome" where
  "refresh_last_frag_or_clear s table_key append_mode =
     (case foreign_storage_cache s of
        None \<Rightarrow> Inl (UndefinedBehaviour, s)
      | Some c \<Rightarrow>
          if append_mode then
            (if hasCachedMetadataForKeyPrefix c table_key then
               (case last_frag_loop (getCachedMetadataVecForKeyPrefix c [] table_key) 0 of
                  Inl e \<Rightarrow> Inl (e, s)
                | Inr last_frag_id \<Rightarrow> Inr (last_frag_id, s))
             else Inr (0, s))
          else Inr (0, emit (ClearForTablePrefix table_key)
                         (s\<lparr>foreign_storage_cache := Some (clearForTablePrefix c table_key)\<rparr>)))"

text \<open>\<^verbatim>\<open>catch (std::runtime_error& e) { throw PostEvictionRefreshException(e); }\<close>\<close>

definition catch_runtime_error :: "'a outcome \<Rightarrow> 'a outcome" where
  "catch_runtime_error r =
     (case r of
        Inl (Thrown (StdRuntimeError m), s) \<Rightarrow>
          Inl (PostEvictionRefreshException (StdRuntimeError m), s)
      | _ \<Rightarrow> r)"

definition refreshTableInCache :: "world \<Rightarrow> ForeignStorageMgr \<Rightarrow> chunk_key \<Rightarrow> unit outcome" where
  "refreshTableInCache w s table_key =
     (if \<not> is_cache_enabled s then Inr ((), s)
      else
        case refresh_prepare w s table_key of
          Inl e \<Rightarrow> Inl e
        | Inr (prepared, s5) \<Rightarrow>
            (case prepared of (append_mode, old_chunk_keys, metadata_vec) \<Rightarrow>
               (case refresh_last_frag_or_clear s5 table_key append_mode of
                  Inl e \<Rightarrow> Inl e
                | Inr (last_frag_id, s6) \<Rightarrow>
                    catch_runtime_error
                      (refresh_try w s6 table_key append_mode last_frag_id metadata_vec
                         old_chunk_keys))))"



text \<open>Reading an outcome: the manager afterwards, the value returned, the failure.\<close>

definition state_of :: "'a outcome \<Rightarrow> ForeignStorageMgr" where
  "state_of r = (case r of Inl (e, s) \<Rightarrow> s | Inr (x, s) \<Rightarrow> s)"

definition returned :: "'a outcome \<Rightarrow> 'a option" where
  "returned r = (case r of Inl (e, s) \<Rightarrow> None | Inr (x, s) \<Rightarrow> Some x)"

definition failure_of :: "'a outcome \<Rightarrow> failure option" where
  "failure_of r = (case r of Inl (e, s) \<Rightarrow> Some e | Inr (x, s) \<Rightarrow> None)"

section \<open>Exceptions of a refresh\<close>

text \<open>
  The exception a recorded call raises, for the two calls of the \<^verbatim>\<open>try\<close> block that can
  raise one: \<^verbatim>\<open>cacheMetadataVec\<close> of the cache and \<^verbatim>\<open>populateChunkBuffers\<close> of the wrapper.
  \<open>raised w evs\<close> is the exception that the last of the calls \<open>evs\<close> raises.
\<close>

fun thrown_by :: "world \<Rightarrow> event \<Rightarrow> exception option" where
  "thrown_by w (CacheMetadataVec vec) = cacheMetadataVec_fault w vec"
| "thrown_by w (PopulateChunkBuffers table_key required_buffers) =
     populateChunkBuffers w table_key required_buffers"
| "thrown_by w e = None"

definition raised :: "world \<Rightarrow> event list \<Rightarrow> exception option" where
  "raised w evs = (if evs = [] then None else thrown_by w (last evs))"

text \<open>
  What leaves the \<^verbatim>\<open>try\<close> block when \<open>ex\<close> is thrown inside:
  \<^verbatim>\<open>catch (std::runtime_error& e)\<close> takes a \<^verbatim>\<open>std::runtime_error\<close> only.
\<close>

definition rethrown :: "exception \<Rightarrow> failure" where
  "rethrown ex =
     (case ex of
        StdRuntimeError m \<Rightarrow> PostEvictionRefreshException ex
      | OtherException m \<Rightarrow> Thrown ex)"

text \<open>
  A step that fails with a thrown exception exactly when the last call it has made raises
  that exception, and that wraps nothing.
\<close>

definition fails_as_raised :: "world \<Rightarrow> ForeignStorageMgr \<Rightarrow> 'a outcome \<Rightarrow> bool" where
  "fails_as_raised w s r =
     (\<exists>evs. calls (state_of r) = calls s @ evs \<and>
        (case failure_of r of
           Some (Thrown ex) \<Rightarrow> raised w evs = Some ex
         | Some (PostEvictionRefreshException x) \<Rightarrow> False
         | _ \<Rightarrow> raised w evs = None))"

section \<open>The fanout rule, in the words of the spec\<close>



text \<open>The calls to \<^verbatim>\<open>cacheTableChunks\<close> among recorded calls.\<close>

fun is_CacheTableChunks :: "event \<Rightarrow> bool" where
  "is_CacheTableChunks (CacheTableChunks ks) = True"
| "is_CacheTableChunks e = False"

text \<open>The chunk keys a recorded call names, and the calls that clear a table.\<close>

fun event_keys :: "event \<Rightarrow> chunk_key list" where
  "event_keys (PopulateChunkBuffers table_key required_buffers) = map fst required_buffers"
| "event_keys (GetChunkBuffersForCaching ks) = ks"
| "event_keys (CacheTableChunks ks) = ks"
| "event_keys (CacheMetadataVec vec) = map fst vec"
| "event_keys e = []"

fun is_ClearForTablePrefix :: "event \<Rightarrow> bool" where
  "is_ClearForTablePrefix (ClearForTablePrefix table_key) = True"
| "is_ClearForTablePrefix e = False"



section \<open>A small installation, for the concrete instances\<close>

text \<open>
  Database 1 holds four foreign tables: table 2 (CSV), table 3 (Parquet), table 4 (a
  wrapper kind the manager does not know) and table 5 (CSV, append mode).  Their schema
  has an integer column 1, a variable-length column 2, and a logical column 3 with the two
  physical columns 4 (variable-length) and 5.
\<close>

definition ex_column :: "int \<Rightarrow> bool \<Rightarrow> int \<Rightarrow> column_descriptor" where
  "ex_column c v p = \<lparr>columnId = c, is_varlen_indeed = v, get_physical_cols = p\<rparr>"

definition ex_table :: "DataWrapperType \<Rightarrow> bool \<Rightarrow> foreign_table" where
  "ex_table kind app =
     \<lparr>data_wrapper_type = kind, isAppendMode = app,
      getLogicalColumn = [1 \<mapsto> ex_column 1 False 0, 2 \<mapsto> ex_column 2 True 0,
                          3 \<mapsto> ex_column 3 False 2, 4 \<mapsto> ex_column 3 False 2,
                          5 \<mapsto> ex_column 3 False 2],
      getColumnDescriptor = [1 \<mapsto> ex_column 1 False 0, 2 \<mapsto> ex_column 2 True 0,
                             3 \<mapsto> ex_column 3 False 2, 4 \<mapsto> ex_column 4 True 0,
                             5 \<mapsto> ex_column 5 False 0]\<rparr>"

definition ex_world :: world where
  "ex_world =
     \<lparr>catalog = [1 \<mapsto> [2 \<mapsto> ForeignTable (ex_table CSV False),
                         3 \<mapsto> ForeignTable (ex_table PARQUET False),
                         4 \<mapsto> ForeignTable (ex_table (OTHER_KIND ''ODBC'') False),
                         5 \<mapsto> ForeignTable (ex_table CSV True)]],
      populateChunkMetadata = (\<lambda>table_key. Inr []),
      populateChunkBuffers = (\<lambda>table_key required_buffers. None),
      serializeDataWrapperInternals = (\<lambda>table_key path. None),
      restoreDataWrapperInternals = (\<lambda>table_key path chunk_metadata. None),
      cacheMetadataVec_fault = (\<lambda>vec. None),
      isDirty = (\<lambda>b. False),
      clock_now = (\<lambda>n. 0),
      ticks_per_second = 1\<rparr>"

text \<open>The manager as its constructor leaves it, without and with a cache.\<close>

definition new_ForeignStorageMgr :: "ForeignStorageCache option \<Rightarrow> ForeignStorageMgr" where
  "new_ForeignStorageMgr fsc =
     \<lparr>data_wrapper_map = Map.empty, temp_chunk_buffer_map = Map.empty,
      foreign_storage_cache = fsc, buffers_allocated = 0, clock_reads = 0, calls = []\<rparr>"

definition ex_cache :: ForeignStorageCache where
  "ex_cache =
     \<lparr>cached_metadata = [], cached_chunks = [], pending_chunks = [],
      on_disk_metadata = Map.empty,
      cache_directory = (\<lambda>table_key. ''/cache/table''),
      cache_files = {}\<rparr>"

definition ex_wrapper :: "bool \<Rightarrow> data_wrapper" where
  "ex_wrapper restored =
     \<lparr>wrapper_class = CsvDataWrapper, wrapper_db_id = 1,
      wrapper_table = ex_table CSV False, isRestored = restored\<rparr>"

text \<open>A staging map that holds one sibling chunk of table (1, 2).\<close>

definition ex_staged :: "chunk_key \<Rightarrow> ForeignStorageMgr" where
  "ex_staged k = (new_ForeignStorageMgr None)\<lparr>temp_chunk_buffer_map := [k \<mapsto> StagingBuffer 0]\<rparr>"

text \<open>
  A cache that holds the metadata of one chunk of table (1, 2) and the serialized state
  of its wrapper.
\<close>

definition ex_chunk_metadata :: chunk_metadata where
  "ex_chunk_metadata = \<lparr>numBytes = 8, numElements = 2\<rparr>"

definition ex_warm_cache :: ForeignStorageCache where
  "ex_warm_cache =
     ex_cache\<lparr>cached_metadata := [([1, 2, 1, 0], ex_chunk_metadata)],
              cache_files := {''/cache/table/wrapper_metadata.json''}\<rparr>"

definition ex_mgr_with_wrapper :: "ForeignStorageCache option \<Rightarrow> ForeignStorageMgr" where
  "ex_mgr_with_wrapper fsc =
     (new_ForeignStorageMgr fsc)\<lparr>data_wrapper_map := [[1, 2] \<mapsto> ex_wrapper False]\<rparr>"

text \<open>A cache that holds the chunk (1, 2, 1, 0) and its metadata.\<close>

definition ex_hot_cache :: ForeignStorageCache where
  "ex_hot_cache =
     ex_cache\<lparr>cached_metadata := [([1, 2, 1, 0], ex_chunk_metadata)],
              cached_chunks := [[1, 2, 1, 0]]\<rparr>"




text \<open>
  Table (1, 2), refreshed in full: fragments 0 and 1 are cached and the table has its
  wrapper.  The clock advances by an hour between two readings.
\<close>

definition ex_two_fragment_cache :: ForeignStorageCache where
  "ex_two_fragment_cache =
     ex_cache\<lparr>cached_metadata := [([1, 2, 1, 0], ex_chunk_metadata), ([1, 2, 1, 1], ex_chunk_metadata)],
              cached_chunks := [[1, 2, 1, 0], [1, 2, 1, 1]]\<rparr>"





text \<open>
  A source whose metadata scan throws, and a source whose scan finds the fragments 0 and 1
  of table (1, 2) and whose wrapper throws \<open>ex\<close> when it populates buffers.
\<close>

definition ex_scan_fails_world :: world where
  "ex_scan_fails_world =
     ex_world\<lparr>populateChunkMetadata :=
                (\<lambda>table_key. Inl (StdRuntimeError ''populateChunkMetadata mock exception''))\<rparr>"

definition ex_read_fails_world :: "exception \<Rightarrow> world" where
  "ex_read_fails_world ex =
     ex_world\<lparr>populateChunkMetadata :=
                (\<lambda>table_key. Inr [([1, 2, 1, 0], ex_chunk_metadata), ([1, 2, 1, 1], ex_chunk_metadata)]),
              populateChunkBuffers := (\<lambda>table_key required_buffers. Some ex)\<rparr>"

section \<open>Facts about keys\<close>

lemma table_key_of_eq:
  "table_key_of k = (if 2 \<le> length k then Inr [k ! 0, k ! 1] else Inl UndefinedBehaviour)"
  by (auto simp add: table_key_of_def key_at_def CHUNK_KEY_DB_IDX_def CHUNK_KEY_TABLE_IDX_def)

lemma isTableKey_cases: "isTableKey k \<Longrightarrow> \<exists>db t. k = [db, t]"
  unfolding isTableKey_def
  by (cases k; simp) (metis length_0_conv length_Suc_conv)



section \<open>Creating and querying data wrappers\<close>

text \<open>
  C8.  \<^verbatim>\<open>createDataWrapperIfNotExists\<close>: when the table of the key has a wrapper, the call
  returns false and the manager is unchanged; when it has none, the call inserts one
  wrapper for the table, of the class the table descriptor names (CSV or Parquet), and
  returns true; for any other kind it throws "Unsupported data wrapper" and the manager,
  the wrapper map with it, is unchanged.
\<close>

theorem createDataWrapperIfNotExists_contract:
  assumes "table_key_of chunk_key = Inr table_key"
  shows "(data_wrapper_map s table_key \<noteq> None \<longrightarrow>
            createDataWrapperIfNotExists w s chunk_key = Inr (False, s)) \<and>
         (data_wrapper_map s table_key = None \<and> get_foreign_table w chunk_key = Inr ft \<and>
          data_wrapper_type ft = CSV \<longrightarrow>
            createDataWrapperIfNotExists w s chunk_key =
              Inr (True, s\<lparr>data_wrapper_map := (data_wrapper_map s)(table_key \<mapsto>
                     \<lparr>wrapper_class = CsvDataWrapper, wrapper_db_id = chunk_key ! 0,
                      wrapper_table = ft, isRestored = False\<rparr>)\<rparr>)) \<and>
         (data_wrapper_map s table_key = None \<and> get_foreign_table w chunk_key = Inr ft \<and>
          data_wrapper_type ft = PARQUET \<longrightarrow>
            createDataWrapperIfNotExists w s chunk_key =
              Inr (True, s\<lparr>data_wrapper_map := (data_wrapper_map s)(table_key \<mapsto>
                     \<lparr>wrapper_class = ParquetDataWrapper, wrapper_db_id = chunk_key ! 0,
                      wrapper_table = ft, isRestored = False\<rparr>)\<rparr>)) \<and>
         (data_wrapper_map s table_key = None \<and> get_foreign_table w chunk_key = Inr ft \<and>
          data_wrapper_type ft \<noteq> CSV \<and> data_wrapper_type ft \<noteq> PARQUET \<longrightarrow>
            createDataWrapperIfNotExists w s chunk_key =
              Inl (Thrown (StdRuntimeError ''Unsupported data wrapper''), s))"
  using assms
  by (auto simp add: createDataWrapperIfNotExists_def CHUNK_KEY_DB_IDX_def)

theorem createDataWrapperIfNotExists_contract_witness:
  "table_key_of [1, 2, 1, 0] = Inr [1, 2] \<and>
   table_key_of [1, 3, 1, 0] = Inr [1, 3] \<and>
   table_key_of [1, 4, 1, 0] = Inr [1, 4] \<and>
   createDataWrapperIfNotExists ex_world
     ((new_ForeignStorageMgr None)\<lparr>data_wrapper_map := [[1, 2] \<mapsto> ex_wrapper False]\<rparr>)
     [1, 2, 1, 0] =
     Inr (False, (new_ForeignStorageMgr None)\<lparr>data_wrapper_map := [[1, 2] \<mapsto> ex_wrapper False]\<rparr>) \<and>
   returned (createDataWrapperIfNotExists ex_world (new_ForeignStorageMgr None) [1, 2, 1, 0]) =
     Some True \<and>
   data_wrapper_map
     (state_of (createDataWrapperIfNotExists ex_world (new_ForeignStorageMgr None) [1, 2, 1, 0])) =
     [[1, 2] \<mapsto> ex_wrapper False] \<and>
   data_wrapper_map
     (state_of (createDataWrapperIfNotExists ex_world (new_ForeignStorageMgr None) [1, 3, 1, 0])) =
     [[1, 3] \<mapsto> \<lparr>wrapper_class = ParquetDataWrapper, wrapper_db_id = 1,
                  wrapper_table = ex_table PARQUET False, isRestored = False\<rparr>] \<and>
   createDataWrapperIfNotExists ex_world (new_ForeignStorageMgr None) [1, 4, 1, 0] =
     Inl (Thrown (StdRuntimeError ''Unsupported data wrapper''), new_ForeignStorageMgr None)"
  using
    createDataWrapperIfNotExists_contract [of "[1, 2, 1, 0]" "[1, 2]"
      "(new_ForeignStorageMgr None)\<lparr>data_wrapper_map := [[1, 2] \<mapsto> ex_wrapper False]\<rparr>" ex_world]
    createDataWrapperIfNotExists_contract [of "[1, 2, 1, 0]" "[1, 2]"
      "new_ForeignStorageMgr None" ex_world "ex_table CSV False"]
    createDataWrapperIfNotExists_contract [of "[1, 3, 1, 0]" "[1, 3]"
      "new_ForeignStorageMgr None" ex_world "ex_table PARQUET False"]
    createDataWrapperIfNotExists_contract [of "[1, 4, 1, 0]" "[1, 4]"
      "new_ForeignStorageMgr None" ex_world "ex_table (OTHER_KIND ''ODBC'') False"]
  by (simp add: table_key_of_eq get_foreign_table_def ex_world_def ex_table_def
      new_ForeignStorageMgr_def ex_wrapper_def returned_def state_of_def
      CHUNK_KEY_DB_IDX_def CHUNK_KEY_TABLE_IDX_def)

text \<open>
  C10.  \<^verbatim>\<open>isDatawrapperRestored\<close>: for a chunk key whose table has no wrapper in the
  wrapper map the call returns false (it does not fail); when the table has a wrapper, it
  returns what \<^verbatim>\<open>isRestored()\<close> of that wrapper returns.
\<close>

theorem isDatawrapperRestored_contract:
  assumes "2 \<le> length chunk_key"
  shows "isDatawrapperRestored s chunk_key =
           Inr (case data_wrapper_map s [chunk_key ! 0, chunk_key ! 1] of
                  None \<Rightarrow> False
                | Some data_wrapper \<Rightarrow> isRestored data_wrapper)"
  using assms
  by (simp add: isDatawrapperRestored_def hasDataWrapperForChunk_def getDataWrapper_def
      table_key_of_eq split: option.splits)

theorem isDatawrapperRestored_contract_witness:
  "2 \<le> length [1 :: int, 2, 1, 0] \<and>
   isDatawrapperRestored (new_ForeignStorageMgr None) [1, 2, 1, 0] = Inr False \<and>
   isDatawrapperRestored
     ((new_ForeignStorageMgr None)\<lparr>data_wrapper_map := [[1, 2] \<mapsto> ex_wrapper True]\<rparr>)
     [1, 2, 1, 0] = Inr True \<and>
   isDatawrapperRestored
     ((new_ForeignStorageMgr None)\<lparr>data_wrapper_map := [[1, 2] \<mapsto> ex_wrapper False]\<rparr>)
     [1, 2, 1, 0] = Inr False"
  using
    isDatawrapperRestored_contract [of "[1, 2, 1, 0]" "new_ForeignStorageMgr None"]
    isDatawrapperRestored_contract [of "[1, 2, 1, 0]"
      "(new_ForeignStorageMgr None)\<lparr>data_wrapper_map := [[1, 2] \<mapsto> ex_wrapper True]\<rparr>"]
    isDatawrapperRestored_contract [of "[1, 2, 1, 0]"
      "(new_ForeignStorageMgr None)\<lparr>data_wrapper_map := [[1, 2] \<mapsto> ex_wrapper False]\<rparr>"]
  by (simp add: new_ForeignStorageMgr_def ex_wrapper_def)

section \<open>Recovering a data wrapper from disk\<close>

text \<open>
  C6.  \<^verbatim>\<open>recoverDataWrapperFromDisk(table_key)\<close> returns false at once when the cache is
  disabled.  Otherwise the metadata is what \<^verbatim>\<open>getCachedMetadataVecForKeyPrefix\<close> gives when
  \<^verbatim>\<open>hasCachedMetadataForKeyPrefix\<close> holds, and what \<^verbatim>\<open>recoverCacheForTable\<close> gives when it
  does not.  If metadata was obtained and the file \<^verbatim>\<open>wrapper_metadata.json\<close> of the table
  exists, the call asks the wrapper to restore from that path with that metadata, and
  every return is a return of true (it does return true when the table has a wrapper and
  the restore does not throw); in every other case it returns false and nothing changes.
\<close>

theorem recoverDataWrapperFromDisk_contract:
  "(foreign_storage_cache s = None \<longrightarrow>
      recoverDataWrapperFromDisk w s table_key = Inr (False, s)) \<and>
   (\<forall>c. foreign_storage_cache s = Some c \<longrightarrow>
      (let obtained = (if hasCachedMetadataForKeyPrefix c table_key
                       then (True, getCachedMetadataVecForKeyPrefix c [] table_key)
                       else recoverCacheForTable c [] table_key);
           filepath = getCacheDirectoryForTablePrefix c table_key @ ''/wrapper_metadata.json''
       in (\<not> (fst obtained \<and> filepath \<in> cache_files c) \<longrightarrow>
             recoverDataWrapperFromDisk w s table_key = Inr (False, s)) \<and>
          (fst obtained \<and> filepath \<in> cache_files c \<longrightarrow>
             returned (recoverDataWrapperFromDisk w s table_key) \<noteq> Some False \<and>
             (\<forall>data_wrapper. getDataWrapper s table_key = Inr data_wrapper \<longrightarrow>
                calls (state_of (recoverDataWrapperFromDisk w s table_key)) =
                  calls s @ [RestoreDataWrapperInternals table_key filepath (snd obtained)] \<and>
                (restoreDataWrapperInternals w table_key filepath (snd obtained) = None \<longrightarrow>
                   returned (recoverDataWrapperFromDisk w s table_key) = Some True)))))"
  by (auto simp add: recoverDataWrapperFromDisk_def Let_def returned_def state_of_def emit_def
      split: prod.splits sum.splits option.splits)

theorem recoverDataWrapperFromDisk_contract_witness:
  "recoverDataWrapperFromDisk ex_world (ex_mgr_with_wrapper None) [1, 2] =
     Inr (False, ex_mgr_with_wrapper None) \<and>
   recoverDataWrapperFromDisk ex_world (ex_mgr_with_wrapper (Some ex_cache)) [1, 2] =
     Inr (False, ex_mgr_with_wrapper (Some ex_cache)) \<and>
   hasCachedMetadataForKeyPrefix ex_warm_cache [1, 2] \<and>
   ''/cache/table/wrapper_metadata.json'' \<in> cache_files ex_warm_cache \<and>
   getDataWrapper (ex_mgr_with_wrapper (Some ex_warm_cache)) [1, 2] = Inr (ex_wrapper False) \<and>
   returned (recoverDataWrapperFromDisk ex_world (ex_mgr_with_wrapper (Some ex_warm_cache)) [1, 2]) =
     Some True \<and>
   calls (state_of
     (recoverDataWrapperFromDisk ex_world (ex_mgr_with_wrapper (Some ex_warm_cache)) [1, 2])) =
     [RestoreDataWrapperInternals [1, 2] ''/cache/table/wrapper_metadata.json''
        [([1, 2, 1, 0], ex_chunk_metadata)]]"
  using
    recoverDataWrapperFromDisk_contract [of "ex_mgr_with_wrapper None" ex_world "[1, 2]"]
    recoverDataWrapperFromDisk_contract [of "ex_mgr_with_wrapper (Some ex_cache)" ex_world "[1, 2]"]
    recoverDataWrapperFromDisk_contract [of "ex_mgr_with_wrapper (Some ex_warm_cache)" ex_world "[1, 2]"]
  by (simp add: ex_mgr_with_wrapper_def new_ForeignStorageMgr_def ex_cache_def ex_warm_cache_def
      hasCachedMetadataForKeyPrefix_def getCachedMetadataVecForKeyPrefix_def
      recoverCacheForTable_def getCacheDirectoryForTablePrefix_def is_prefix_of_def
      getDataWrapper_def table_key_of_eq ex_world_def Let_def)

section \<open>The fanout of a fetch\<close>


lemma getChunkBuffersToPopulate_Inr:
  assumes "getChunkBuffersToPopulate w s key dst ks0 = Inr ((required, ks), s')"
  shows "\<exists>ft L. get_foreign_table w key = Inr ft \<and>
           getLogicalColumn ft (key ! 2) = Some L \<and> 3 < length key \<and>
           column_loop ft (key ! 0) (key ! 1) (key ! 3) (columnId L)
             (columnId L + get_physical_cols L) ks0 = Inr ks"
proof -
  note d = getChunkBuffersToPopulate_def CHUNK_KEY_DB_IDX_def CHUNK_KEY_TABLE_IDX_def
    CHUNK_KEY_COLUMN_IDX_def CHUNK_KEY_FRAGMENT_IDX_def Let_def
  have len: "3 < length key"
    using assms unfolding d by (simp split: if_splits)
  obtain ft where ft: "get_foreign_table w key = Inr ft"
    using assms len unfolding d by (cases "get_foreign_table w key") simp_all
  obtain L where L: "getLogicalColumn ft (key ! 2) = Some L"
    using assms len ft unfolding d by (cases "getLogicalColumn ft (key ! 2)") simp_all
  have rng: "\<not> (columnId L + get_physical_cols L > INT_MAX \<or>
               columnId L + get_physical_cols L < - INT_MAX - 1)"
    using assms len ft L unfolding d by (simp split: if_splits)
  obtain ks' where ks': "column_loop ft (key ! 0) (key ! 1) (key ! 3) (columnId L)
             (columnId L + get_physical_cols L) ks0 = Inr ks'"
    using assms len ft L rng unfolding d
    by (cases "column_loop ft (key ! 0) (key ! 1) (key ! 3) (columnId L)
             (columnId L + get_physical_cols L) ks0") simp_all
  have "ks' = ks"
    using assms len ft L rng ks' unfolding d
    by (simp split: option.splits prod.splits if_splits)
  then show ?thesis using len ft L ks' by simp
qed

lemma fetchBuffer_miss_Inr:
  assumes "fetchBuffer_miss w s key dst = Inr (l, s1)"
  shows "\<exists>s3 required s4.
           prime_data_wrapper w s key = Inr ((), s3) \<and>
           getChunkBuffersToPopulate w s3 key dst [] = Inr ((required, fl_chunk_keys l), s4) \<and>
           map_of required key = Some (fl_buffer l) \<and>
           populateChunkBuffers w [key ! 0, key ! 1] required = None \<and>
           s1 = emit (PopulateChunkBuffers [key ! 0, key ! 1] required) s4 \<and>
           \<not> fl_cached l \<and> \<not> fl_is_buffer_from_map l"
proof -
  obtain s3 where p: "prime_data_wrapper w s key = Inr ((), s3)"
    using assms unfolding fetchBuffer_miss_def by (auto split: sum.splits)
  obtain required ks s4 where g:
    "getChunkBuffersToPopulate w s3 key dst [] = Inr ((required, ks), s4)"
    using assms p unfolding fetchBuffer_miss_def by (auto split: sum.splits)
  obtain b where b: "map_of required key = Some b"
    using assms p g unfolding fetchBuffer_miss_def by (auto split: option.splits)
  obtain dw where d: "getDataWrapper s4 key = Inr dw"
    using assms p g b unfolding fetchBuffer_miss_def by (auto split: sum.splits)
  have n: "populateChunkBuffers w [key ! 0, key ! 1] required = None"
    using assms p g b d unfolding fetchBuffer_miss_def Let_def
    by (cases "populateChunkBuffers w [key ! 0, key ! 1] required") simp_all
  have "Inr (l, s1) = Inr (\<lparr>fl_buffer = b, fl_cached = False, fl_is_buffer_from_map = False,
          fl_chunk_keys = ks\<rparr>, emit (PopulateChunkBuffers [key ! 0, key ! 1] required) s4)"
    using assms p g b d n unfolding fetchBuffer_miss_def Let_def by simp
  then have "l = \<lparr>fl_buffer = b, fl_cached = False, fl_is_buffer_from_map = False,
          fl_chunk_keys = ks\<rparr>" "s1 = emit (PopulateChunkBuffers [key ! 0, key ! 1] required) s4"
    by simp_all
  then show ?thesis
    using p g b n by simp
qed

lemma fetchBuffer_source_dirty:
  "isDirty w dst \<Longrightarrow> fetchBuffer_source w s key dst = Inl (CheckFailed, s)"
  by (simp add: fetchBuffer_source_def)

lemma fetchBuffer_source_hit:
  "\<not> isDirty w dst \<Longrightarrow> foreign_storage_cache s = Some c \<Longrightarrow> key \<in> set (cached_chunks c) \<Longrightarrow>
   fetchBuffer_source w s key dst =
     Inr (\<lparr>fl_buffer = CacheBuffer key, fl_cached = True, fl_is_buffer_from_map = False,
           fl_chunk_keys = []\<rparr>, s)"
  by (simp add: fetchBuffer_source_def getCachedChunkIfExists_def)

lemma fetchBuffer_source_staged:
  "\<not> isDirty w dst \<Longrightarrow> foreign_storage_cache s = None \<Longrightarrow> temp_chunk_buffer_map s key = Some b \<Longrightarrow>
   fetchBuffer_source w s key dst =
     Inr (\<lparr>fl_buffer = b, fl_cached = True, fl_is_buffer_from_map = True,
           fl_chunk_keys = []\<rparr>, s)"
  by (simp add: fetchBuffer_source_def is_cache_enabled_def)

lemma fetchBuffer_source_cache_miss:
  "\<not> isDirty w dst \<Longrightarrow> foreign_storage_cache s = Some c \<Longrightarrow> key \<notin> set (cached_chunks c) \<Longrightarrow>
   fetchBuffer_source w s key dst = fetchBuffer_miss w s key dst"
  by (simp add: fetchBuffer_source_def getCachedChunkIfExists_def is_cache_enabled_def)

lemma fetchBuffer_source_staging_miss:
  "\<not> isDirty w dst \<Longrightarrow> foreign_storage_cache s = None \<Longrightarrow> temp_chunk_buffer_map s key = None \<Longrightarrow>
   fetchBuffer_source w s key dst = fetchBuffer_miss w s key dst"
  by (simp add: fetchBuffer_source_def is_cache_enabled_def)



lemma outcome_Inr: "returned r \<noteq> None \<Longrightarrow> r = Inr (the (returned r), state_of r)"
  by (auto simp add: returned_def state_of_def split: sum.splits)



lemma map_of_buffer_map_set:
  "map_of (buffer_map_set m k b) k' = (if k' = k then Some b else map_of m k')"
  by (induction m k b rule: buffer_map_set.induct) auto

lemma stage_siblings_keeps:
  "stage_siblings dest ks m s = (m', s') \<Longrightarrow>
   map_of m' dest = map_of m dest \<and> foreign_storage_cache s' = foreign_storage_cache s \<and>
   calls s' = calls s \<and> data_wrapper_map s' = data_wrapper_map s"
proof (induction dest ks m s arbitrary: m' s' rule: stage_siblings.induct)
  case (1 dest m s)
  then show ?case by simp
next
  case (2 dest k rest m s)
  show ?case
  proof (cases "k = dest")
    case True
    then show ?thesis using 2 by simp
  next
    case False
    let ?b = "StagingBuffer (buffers_allocated s)"
    let ?s = "s\<lparr>temp_chunk_buffer_map := (temp_chunk_buffer_map s)(k \<mapsto> ?b),
                   buffers_allocated := Suc (buffers_allocated s)\<rparr>"
    have "stage_siblings dest rest (buffer_map_set m k ?b) ?s = (m', s')"
      using "2.prems" False by (simp add: Let_def)
    from "2.IH"(1) [OF False refl refl this] show ?thesis
      using False by (simp add: map_of_buffer_map_set)
  qed
qed

lemma getChunkBuffersToPopulate_enabled:
  assumes "getChunkBuffersToPopulate w s key dst ks0 = Inr ((required, ks), s')"
    and "foreign_storage_cache s = Some c"
  shows "required = map (\<lambda>k. (k, CacheBuffer k)) ks \<and>
         s' = emit (GetChunkBuffersForCaching ks)
                (s\<lparr>foreign_storage_cache := Some (c\<lparr>pending_chunks := pending_chunks c @ ks\<rparr>)\<rparr>)"
proof -
  obtain ft L where
    "get_foreign_table w key = Inr ft" "getLogicalColumn ft (key ! 2) = Some L" "3 < length key"
    "column_loop ft (key ! 0) (key ! 1) (key ! 3) (columnId L)
       (columnId L + get_physical_cols L) ks0 = Inr ks"
    using getChunkBuffersToPopulate_Inr [OF assms(1)] by blast
  then show ?thesis
    using assms
    unfolding getChunkBuffersToPopulate_def CHUNK_KEY_DB_IDX_def CHUNK_KEY_TABLE_IDX_def
      CHUNK_KEY_COLUMN_IDX_def CHUNK_KEY_FRAGMENT_IDX_def Let_def getChunkBuffersForCaching_def
    by (simp split: if_splits)
qed

lemma getChunkBuffersToPopulate_disabled:
  assumes "getChunkBuffersToPopulate w s key dst ks0 = Inr ((required, ks), s')"
    and "foreign_storage_cache s = None"
  shows "map_of required key = Some dst \<and> foreign_storage_cache s' = None \<and> calls s' = calls s"
proof -
  obtain ft L where
    "get_foreign_table w key = Inr ft" "getLogicalColumn ft (key ! 2) = Some L" "3 < length key"
    "column_loop ft (key ! 0) (key ! 1) (key ! 3) (columnId L)
       (columnId L + get_physical_cols L) ks0 = Inr ks"
    using getChunkBuffersToPopulate_Inr [OF assms(1)] by blast
  then have tail:
    "(if length ks > 1 then
        (let (chunk_buffer_map', s') = stage_siblings key ks (buffer_map_set [] key dst) s
         in Inr ((chunk_buffer_map', ks), s'))
      else if length ks \<noteq> 1 then Inl (CheckFailed, s)
      else if key \<noteq> ks ! 0 then Inl (CheckFailed, s)
      else Inr ((buffer_map_set [] key dst, ks), s)) = Inr ((required, ks), s')"
    using assms
    unfolding getChunkBuffersToPopulate_def CHUNK_KEY_DB_IDX_def CHUNK_KEY_TABLE_IDX_def
      CHUNK_KEY_COLUMN_IDX_def CHUNK_KEY_FRAGMENT_IDX_def Let_def
    by (auto split: if_splits)
  show ?thesis
  proof (cases "length ks > 1")
    case True
    then have "stage_siblings key ks (buffer_map_set [] key dst) s = (required, s')"
      using tail by (simp split: prod.splits)
    from stage_siblings_keeps [OF this] show ?thesis
      using assms(2) by simp
  next
    case False
    then have "required = buffer_map_set [] key dst" "s' = s"
      using tail by (simp_all split: if_splits)
    then show ?thesis using assms(2) by simp
  qed
qed

lemma createDataWrapperIfNotExists_frame:
  "calls (state_of (createDataWrapperIfNotExists w s k)) = calls s \<and>
   foreign_storage_cache (state_of (createDataWrapperIfNotExists w s k)) = foreign_storage_cache s \<and>
   temp_chunk_buffer_map (state_of (createDataWrapperIfNotExists w s k)) = temp_chunk_buffer_map s"
  by (simp add: createDataWrapperIfNotExists_def state_of_def Let_def split: sum.splits)

lemma recoverDataWrapperFromDisk_frame:
  "foreign_storage_cache (state_of (recoverDataWrapperFromDisk w s k)) = foreign_storage_cache s \<and>
   temp_chunk_buffer_map (state_of (recoverDataWrapperFromDisk w s k)) = temp_chunk_buffer_map s \<and>
   (\<exists>evs. calls (state_of (recoverDataWrapperFromDisk w s k)) = calls s @ evs \<and>
          (\<forall>e \<in> set evs. \<not> is_CacheTableChunks e))"
  by (auto simp add: recoverDataWrapperFromDisk_def state_of_def Let_def emit_def
      split: sum.splits option.splits prod.splits)

lemma state_of_Inr: "r = Inr (x, s') \<Longrightarrow> state_of r = s'"
  by (simp add: state_of_def)

lemma prime_data_wrapper_frame:
  "foreign_storage_cache (state_of (prime_data_wrapper w s k)) = foreign_storage_cache s \<and>
   temp_chunk_buffer_map (state_of (prime_data_wrapper w s k)) = temp_chunk_buffer_map s \<and>
   (\<exists>evs. calls (state_of (prime_data_wrapper w s k)) = calls s @ evs \<and>
          (\<forall>e \<in> set evs. \<not> is_CacheTableChunks e))"
proof (cases "createDataWrapperIfNotExists w s k")
  case (Inl a)
  then show ?thesis
    using createDataWrapperIfNotExists_frame [of w s k]
    by (simp add: prime_data_wrapper_def state_of_def split: prod.splits)
next
  case (Inr b)
  obtain created s1 where b: "b = (created, s1)" by (cases b)
  have s1: "calls s1 = calls s" "foreign_storage_cache s1 = foreign_storage_cache s"
    "temp_chunk_buffer_map s1 = temp_chunk_buffer_map s"
    using createDataWrapperIfNotExists_frame [of w s k] Inr b by (simp_all add: state_of_def)
  show ?thesis
  proof (cases created)
    case False
    then show ?thesis using Inr b s1 by (simp add: prime_data_wrapper_def state_of_def)
  next
    case True
    let ?tk = "[k ! 0, k ! 1]"
    let ?r = "recoverDataWrapperFromDisk w s1 ?tk"
    obtain evs where r:
      "foreign_storage_cache (state_of ?r) = foreign_storage_cache s"
      "temp_chunk_buffer_map (state_of ?r) = temp_chunk_buffer_map s"
      "calls (state_of ?r) = calls s @ evs" "\<forall>e \<in> set evs. \<not> is_CacheTableChunks e"
      using recoverDataWrapperFromDisk_frame [of w s1 ?tk] s1 by auto
    show ?thesis
    proof (cases ?r)
      case (Inl a)
      then show ?thesis
        using Inr b True r
        by (auto simp add: prime_data_wrapper_def state_of_def Let_def split: prod.splits)
    next
      case i2: (Inr b2)
      obtain recovered s2 where b2: "b2 = (recovered, s2)" by (cases b2)
      have s2: "foreign_storage_cache s2 = foreign_storage_cache s"
        "temp_chunk_buffer_map s2 = temp_chunk_buffer_map s" "calls s2 = calls s @ evs"
        using r i2 b2 by (simp_all add: state_of_def)
      show ?thesis
        using Inr b True i2 b2 s2 r(4)
        by (auto simp add: prime_data_wrapper_def state_of_def Let_def emit_def
            split: sum.splits)
    qed
  qed
qed

lemma map_of_cache_buffers:
  "map_of (map (\<lambda>k. (k, CacheBuffer k)) ks) key =
     (if key \<in> set ks then Some (CacheBuffer key) else None)"
  by (induction ks) auto

lemma fetchBuffer_miss_enabled:
  assumes "fetchBuffer_miss w s key dst = Inr (l, s1)" and "foreign_storage_cache s = Some c"
  shows "\<exists>pre ks.
           l = \<lparr>fl_buffer = CacheBuffer key, fl_cached = False, fl_is_buffer_from_map = False,
                fl_chunk_keys = ks\<rparr> \<and> key \<in> set ks \<and>
           calls s1 = calls s @ pre @
             [GetChunkBuffersForCaching ks,
              PopulateChunkBuffers [key ! 0, key ! 1] (map (\<lambda>k. (k, CacheBuffer k)) ks)] \<and>
           (\<forall>e \<in> set pre. \<not> is_CacheTableChunks e) \<and>
           foreign_storage_cache s1 = Some (c\<lparr>pending_chunks := pending_chunks c @ ks\<rparr>)"
proof -
  obtain s3 required s4 where
    p: "prime_data_wrapper w s key = Inr ((), s3)" and
    g: "getChunkBuffersToPopulate w s3 key dst [] = Inr ((required, fl_chunk_keys l), s4)" and
    r: "map_of required key = Some (fl_buffer l)" and
    s1: "s1 = emit (PopulateChunkBuffers [key ! 0, key ! 1] required) s4" and
    fl: "\<not> fl_cached l" "\<not> fl_is_buffer_from_map l"
    using fetchBuffer_miss_Inr [OF assms(1)] by blast
  obtain pre where s3: "foreign_storage_cache s3 = Some c" "calls s3 = calls s @ pre"
    "\<forall>e \<in> set pre. \<not> is_CacheTableChunks e"
    using prime_data_wrapper_frame [of w s key] p assms(2) by (auto simp add: state_of_def)
  have e: "required = map (\<lambda>k. (k, CacheBuffer k)) (fl_chunk_keys l)"
    "s4 = emit (GetChunkBuffersForCaching (fl_chunk_keys l))
            (s3\<lparr>foreign_storage_cache :=
                  Some (c\<lparr>pending_chunks := pending_chunks c @ fl_chunk_keys l\<rparr>)\<rparr>)"
    using getChunkBuffersToPopulate_enabled [OF g s3(1)] by simp_all
  have k: "key \<in> set (fl_chunk_keys l)" "fl_buffer l = CacheBuffer key"
    using r e(1) by (simp_all add: map_of_cache_buffers split: if_splits)
  have "l = \<lparr>fl_buffer = CacheBuffer key, fl_cached = False, fl_is_buffer_from_map = False,
             fl_chunk_keys = fl_chunk_keys l\<rparr>"
    using k fl by simp
  then show ?thesis
    using k(1) s1 e s3 by (auto simp add: emit_def)
qed

lemma fetchBuffer_miss_disabled:
  assumes "fetchBuffer_miss w s key dst = Inr (l, s1)" and "foreign_storage_cache s = None"
  shows "fl_buffer l = dst \<and> \<not> fl_cached l \<and> \<not> fl_is_buffer_from_map l \<and>
         foreign_storage_cache s1 = None"
proof -
  obtain s3 required s4 where
    p: "prime_data_wrapper w s key = Inr ((), s3)" and
    g: "getChunkBuffersToPopulate w s3 key dst [] = Inr ((required, fl_chunk_keys l), s4)" and
    r: "map_of required key = Some (fl_buffer l)" and
    s1: "s1 = emit (PopulateChunkBuffers [key ! 0, key ! 1] required) s4" and
    fl: "\<not> fl_cached l" "\<not> fl_is_buffer_from_map l"
    using fetchBuffer_miss_Inr [OF assms(1)] by blast
  have s3: "foreign_storage_cache s3 = None"
    using prime_data_wrapper_frame [of w s key] p assms(2) by (simp add: state_of_def)
  show ?thesis
    using getChunkBuffersToPopulate_disabled [OF g s3] r s1 fl by (simp add: emit_def)
qed

lemma fetchBuffer_source_cases:
  assumes "fetchBuffer_source w s key dst = Inr (l, s1)"
  obtains
    (hit) c where "foreign_storage_cache s = Some c" "key \<in> set (cached_chunks c)" "s1 = s"
      "l = \<lparr>fl_buffer = CacheBuffer key, fl_cached = True, fl_is_buffer_from_map = False,
             fl_chunk_keys = []\<rparr>"
  | (staged) b where "foreign_storage_cache s = None" "temp_chunk_buffer_map s key = Some b"
      "s1 = s"
      "l = \<lparr>fl_buffer = b, fl_cached = True, fl_is_buffer_from_map = True, fl_chunk_keys = []\<rparr>"
  | (cache_miss) c where "foreign_storage_cache s = Some c" "key \<notin> set (cached_chunks c)"
      "fetchBuffer_miss w s key dst = Inr (l, s1)"
  | (staging_miss) "foreign_storage_cache s = None" "temp_chunk_buffer_map s key = None"
      "fetchBuffer_miss w s key dst = Inr (l, s1)"
proof (cases "isDirty w dst")
  case True
  then show ?thesis using assms by (simp add: fetchBuffer_source_dirty)
next
  case False
  show ?thesis
  proof (cases "foreign_storage_cache s")
    case None
    show ?thesis
    proof (cases "temp_chunk_buffer_map s key")
      case n: None
      then have "fetchBuffer_miss w s key dst = Inr (l, s1)"
        using assms False None by (simp add: fetchBuffer_source_staging_miss)
      then show ?thesis using None n by (rule staging_miss [rotated 2])
    next
      case (Some b)
      then have "s1 = s"
        "l = \<lparr>fl_buffer = b, fl_cached = True, fl_is_buffer_from_map = True, fl_chunk_keys = []\<rparr>"
        using assms False None by (auto simp add: fetchBuffer_source_staged)
      then show ?thesis using None Some by (rule staged [rotated 2])
    qed
  next
    case (Some c)
    show ?thesis
    proof (cases "key \<in> set (cached_chunks c)")
      case True
      then have "s1 = s"
        "l = \<lparr>fl_buffer = CacheBuffer key, fl_cached = True, fl_is_buffer_from_map = False,
             fl_chunk_keys = []\<rparr>"
        using assms False Some by (auto simp add: fetchBuffer_source_hit)
      then show ?thesis using Some True by (rule hit [rotated 2])
    next
      case f: False
      then have "fetchBuffer_miss w s key dst = Inr (l, s1)"
        using assms False Some by (simp add: fetchBuffer_source_cache_miss)
      then show ?thesis using Some f by (rule cache_miss [rotated 2])
    qed
  qed
qed

lemma deliver_cached:
  "foreign_storage_cache s1 = Some c \<Longrightarrow>
   fetchBuffer_deliver s1
     \<lparr>fl_buffer = b, fl_cached = True, fl_is_buffer_from_map = False, fl_chunk_keys = ks\<rparr>
     key dst n = Inr ((), emit (CopyTo b dst n) s1)"
  by (simp add: fetchBuffer_deliver_def is_cache_enabled_def emit_def Let_def)

lemma deliver_staged:
  "foreign_storage_cache s1 = None \<Longrightarrow>
   fetchBuffer_deliver s1
     \<lparr>fl_buffer = b, fl_cached = True, fl_is_buffer_from_map = True, fl_chunk_keys = ks\<rparr>
     key dst n =
     Inr ((), (emit (CopyTo b dst n) s1)
               \<lparr>temp_chunk_buffer_map := (temp_chunk_buffer_map s1)(key := None)\<rparr>)"
  by (simp add: fetchBuffer_deliver_def is_cache_enabled_def emit_def Let_def)

lemma deliver_populated_cache:
  "foreign_storage_cache s1 = Some c \<Longrightarrow>
   fetchBuffer_deliver s1
     \<lparr>fl_buffer = b, fl_cached = False, fl_is_buffer_from_map = False, fl_chunk_keys = ks\<rparr>
     key dst n =
     Inr ((), emit (CacheTableChunks ks)
               ((emit (CopyTo b dst n) s1)
                  \<lparr>foreign_storage_cache := Some (cacheTableChunks c ks)\<rparr>))"
  by (simp add: fetchBuffer_deliver_def is_cache_enabled_def emit_def Let_def)

lemma deliver_populated_direct:
  "foreign_storage_cache s1 = None \<Longrightarrow> \<not> fl_cached l \<Longrightarrow> \<not> fl_is_buffer_from_map l \<Longrightarrow>
   fetchBuffer_deliver s1 l key dst n = Inr ((), s1)"
  by (simp add: fetchBuffer_deliver_def is_cache_enabled_def emit_def Let_def)

text \<open>
  C2, as the code has it.  For a destination buffer that neither the cache nor the staging
  map owns: \<^verbatim>\<open>fetchBuffer\<close> copies \<open>num_bytes\<close> bytes from the source buffer into the
  destination buffer if and only if the two are distinct; they are the same buffer exactly
  when the cache is disabled and the staging map has no entry for the key (the wrapper
  then fills the destination buffer itself, whether the fanout has siblings or not); so in
  every fetch with the cache enabled the copy is made.
\<close>

theorem fetchBuffer_copy:
  assumes "fetchBuffer_source w s key dst = Inr (l, s1)"
    and "\<forall>k. dst \<noteq> CacheBuffer k" and "\<forall>k. temp_chunk_buffer_map s k \<noteq> Some dst"
  shows "returned (fetchBuffer w s key dst num_bytes) = Some () \<and>
         calls (state_of (fetchBuffer w s key dst num_bytes)) =
           calls s1 @
           (if fl_buffer l \<noteq> dst then [CopyTo (fl_buffer l) dst num_bytes] else []) @
           (if is_cache_enabled s \<and> \<not> fl_cached l then [CacheTableChunks (fl_chunk_keys l)]
            else []) \<and>
         (fl_buffer l = dst \<longleftrightarrow>
            \<not> is_cache_enabled s \<and> temp_chunk_buffer_map s key = None) \<and>
         (is_cache_enabled s \<longrightarrow> fl_buffer l \<noteq> dst)"
proof -
  have fb: "fetchBuffer w s key dst num_bytes = fetchBuffer_deliver s1 l key dst num_bytes"
    using assms(1) by (simp add: fetchBuffer_def)
  have nc: "CacheBuffer key \<noteq> dst" using assms(2) by metis
  from assms(1) show ?thesis
  proof (cases rule: fetchBuffer_source_cases)
    case (hit c)
    have "fetchBuffer w s key dst num_bytes =
            Inr ((), emit (CopyTo (CacheBuffer key) dst num_bytes) s)"
      unfolding fb hit(3,4) using hit(1) by (rule deliver_cached)
    then show ?thesis
      using nc hit(1) unfolding hit(3,4)
      by (simp add: returned_def state_of_def emit_def is_cache_enabled_def)
  next
    case (staged b)
    have b: "b \<noteq> dst" using assms(3) staged(2) by metis
    have "fetchBuffer w s key dst num_bytes =
            Inr ((), (emit (CopyTo b dst num_bytes) s)
                       \<lparr>temp_chunk_buffer_map := (temp_chunk_buffer_map s)(key := None)\<rparr>)"
      unfolding fb staged(3,4) using staged(1) by (rule deliver_staged)
    then show ?thesis
      using b staged(1,2) unfolding staged(3,4)
      by (simp add: returned_def state_of_def emit_def is_cache_enabled_def)
  next
    case (cache_miss c)
    obtain pre ks where m:
      "l = \<lparr>fl_buffer = CacheBuffer key, fl_cached = False, fl_is_buffer_from_map = False,
            fl_chunk_keys = ks\<rparr>"
      "foreign_storage_cache s1 = Some (c\<lparr>pending_chunks := pending_chunks c @ ks\<rparr>)"
      using fetchBuffer_miss_enabled [OF cache_miss(3) cache_miss(1)] by blast
    have "fetchBuffer w s key dst num_bytes =
            Inr ((), emit (CacheTableChunks ks)
               ((emit (CopyTo (CacheBuffer key) dst num_bytes) s1)
                  \<lparr>foreign_storage_cache :=
                     Some (cacheTableChunks (c\<lparr>pending_chunks := pending_chunks c @ ks\<rparr>) ks)\<rparr>))"
      unfolding fb m(1) using m(2) by (rule deliver_populated_cache)
    then show ?thesis
      using nc cache_miss(1) unfolding m(1)
      by (simp add: returned_def state_of_def emit_def is_cache_enabled_def)
  next
    case staging_miss
    have d: "fl_buffer l = dst" "\<not> fl_cached l" "\<not> fl_is_buffer_from_map l"
      "foreign_storage_cache s1 = None"
      using fetchBuffer_miss_disabled [OF staging_miss(3) staging_miss(1)] by simp_all
    have "fetchBuffer w s key dst num_bytes = Inr ((), s1)"
      unfolding fb using d(4,2,3) by (rule deliver_populated_direct)
    then show ?thesis
      using d(1) staging_miss(1,2)
      by (simp add: returned_def state_of_def is_cache_enabled_def)
  qed
qed

text \<open>
  C3.  With the cache enabled, a \<^verbatim>\<open>fetchBuffer\<close> that returns: if the probe finds the key,
  the only call is the copy, and the cache is as it was (\<^verbatim>\<open>cacheTableChunks\<close> is not
  called); if the probe misses, the calls end with the request for the cache buffers of
  the fanout, the \<^verbatim>\<open>populateChunkBuffers\<close> of the wrapper on them, the copy, and one
  \<^verbatim>\<open>cacheTableChunks\<close> with the keys of the fanout, no \<^verbatim>\<open>cacheTableChunks\<close> before, and
  every key of the fanout is a cached chunk afterwards.
\<close>

theorem fetchBuffer_promotion:
  assumes "foreign_storage_cache s = Some c"
    and "fetchBuffer w s key dst num_bytes = Inr ((), s')"
  shows "(getCachedChunkIfExists c key \<noteq> None \<longrightarrow>
            calls s' = calls s @ [CopyTo (CacheBuffer key) dst num_bytes] \<and>
            foreign_storage_cache s' = Some c) \<and>
         (getCachedChunkIfExists c key = None \<longrightarrow>
            (\<exists>pre l s1.
               fetchBuffer_source w s key dst = Inr (l, s1) \<and>
               calls s' = calls s @ pre @
                 [GetChunkBuffersForCaching (fl_chunk_keys l),
                  PopulateChunkBuffers [key ! 0, key ! 1]
                    (map (\<lambda>k. (k, CacheBuffer k)) (fl_chunk_keys l)),
                  CopyTo (CacheBuffer key) dst num_bytes,
                  CacheTableChunks (fl_chunk_keys l)] \<and>
               filter is_CacheTableChunks pre = [] \<and>
               key \<in> set (fl_chunk_keys l) \<and>
               foreign_storage_cache s' =
                 Some (cacheTableChunks (c\<lparr>pending_chunks := pending_chunks c @ fl_chunk_keys l\<rparr>)
                         (fl_chunk_keys l)) \<and>
               (\<forall>c'. foreign_storage_cache s' = Some c' \<longrightarrow>
                  set (fl_chunk_keys l) \<subseteq> set (cached_chunks c'))))"
proof -
  obtain l s1 where src: "fetchBuffer_source w s key dst = Inr (l, s1)"
    using assms(2) unfolding fetchBuffer_def by (auto split: sum.splits)
  have fb: "fetchBuffer w s key dst num_bytes = fetchBuffer_deliver s1 l key dst num_bytes"
    using src by (simp add: fetchBuffer_def)
  note defs = fetchBuffer_deliver_def is_cache_enabled_def emit_def Let_def
    getCachedChunkIfExists_def
  from src show ?thesis
  proof (cases rule: fetchBuffer_source_cases)
    case (hit c')
    then have c': "c' = c" using assms(1) by simp
    have "fetchBuffer w s key dst num_bytes =
            Inr ((), emit (CopyTo (CacheBuffer key) dst num_bytes) s)"
      unfolding fb hit(3,4) using assms(1) by (rule deliver_cached)
    then show ?thesis
      using assms hit(2) c' by (simp add: emit_def getCachedChunkIfExists_def)
  next
    case (staged b)
    then show ?thesis using assms(1) by simp
  next
    case staging_miss
    then show ?thesis using assms(1) by simp
  next
    case (cache_miss c')
    then have c': "c' = c" using assms(1) by simp
    obtain pre ks where m:
      "l = \<lparr>fl_buffer = CacheBuffer key, fl_cached = False, fl_is_buffer_from_map = False,
            fl_chunk_keys = ks\<rparr>" "key \<in> set ks"
      "calls s1 = calls s @ pre @
             [GetChunkBuffersForCaching ks,
              PopulateChunkBuffers [key ! 0, key ! 1] (map (\<lambda>k. (k, CacheBuffer k)) ks)]"
      "\<forall>e \<in> set pre. \<not> is_CacheTableChunks e"
      "foreign_storage_cache s1 = Some (c\<lparr>pending_chunks := pending_chunks c @ ks\<rparr>)"
      using fetchBuffer_miss_enabled [OF cache_miss(3) assms(1)] by blast
    have "fetchBuffer w s key dst num_bytes =
            Inr ((), emit (CacheTableChunks ks)
               ((emit (CopyTo (CacheBuffer key) dst num_bytes) s1)
                  \<lparr>foreign_storage_cache :=
                     Some (cacheTableChunks (c\<lparr>pending_chunks := pending_chunks c @ ks\<rparr>) ks)\<rparr>))"
      unfolding fb m(1) using m(5) by (rule deliver_populated_cache)
    then have s': "calls s' = calls s1 @ [CopyTo (CacheBuffer key) dst num_bytes, CacheTableChunks ks]"
      "foreign_storage_cache s' =
         Some (cacheTableChunks (c\<lparr>pending_chunks := pending_chunks c @ ks\<rparr>) ks)"
      using assms(2) by (auto simp add: emit_def)
    have f: "filter is_CacheTableChunks pre = []"
      using m(4) by (simp add: filter_empty_conv)
    have sub: "set ks \<subseteq> set (cached_chunks
        (cacheTableChunks (c\<lparr>pending_chunks := pending_chunks c @ ks\<rparr>) ks))"
      by (auto simp add: cacheTableChunks_def)
    show ?thesis
      using cache_miss(2) c' src m(2,3) f s' sub unfolding m(1)
      by (auto simp add: getCachedChunkIfExists_def)
  qed
qed

theorem fetchBuffer_copy_witness:
  "(\<forall>k. CallerBuffer 0 \<noteq> CacheBuffer k) \<and>
   (\<forall>k. temp_chunk_buffer_map (new_ForeignStorageMgr (Some ex_cache)) k \<noteq> Some (CallerBuffer 0)) \<and>
   (\<forall>k. temp_chunk_buffer_map (ex_staged [1, 2, 4, 0, 2]) k \<noteq> Some (CallerBuffer 0)) \<and>
   calls (state_of (fetchBuffer ex_world (new_ForeignStorageMgr (Some ex_cache)) [1, 2, 4, 0, 1]
                      (CallerBuffer 0) 16)) =
     [PopulateChunkMetadata [1, 2],
      GetChunkBuffersForCaching [[1, 2, 3, 0], [1, 2, 4, 0, 1], [1, 2, 4, 0, 2], [1, 2, 5, 0]],
      PopulateChunkBuffers [1, 2]
        [([1, 2, 3, 0], CacheBuffer [1, 2, 3, 0]), ([1, 2, 4, 0, 1], CacheBuffer [1, 2, 4, 0, 1]),
         ([1, 2, 4, 0, 2], CacheBuffer [1, 2, 4, 0, 2]), ([1, 2, 5, 0], CacheBuffer [1, 2, 5, 0])],
      CopyTo (CacheBuffer [1, 2, 4, 0, 1]) (CallerBuffer 0) 16,
      CacheTableChunks [[1, 2, 3, 0], [1, 2, 4, 0, 1], [1, 2, 4, 0, 2], [1, 2, 5, 0]]] \<and>
   calls (state_of (fetchBuffer ex_world (ex_staged [1, 2, 4, 0, 2]) [1, 2, 4, 0, 2]
                      (CallerBuffer 0) 16)) =
     [CopyTo (StagingBuffer 0) (CallerBuffer 0) 16]"
proof -
  let ?s = "new_ForeignStorageMgr (Some ex_cache)"
  let ?R = "fetchBuffer_source ex_world ?s [1, 2, 4, 0, 1] (CallerBuffer 0)"
  let ?t = "ex_staged [1, 2, 4, 0, 2]"
  let ?Q = "fetchBuffer_source ex_world ?t [1, 2, 4, 0, 2] (CallerBuffer 0)"
  have r: "?R = Inr (the (returned ?R), state_of ?R)" by (rule outcome_Inr) code_simp
  have q: "?Q = Inr (the (returned ?Q), state_of ?Q)" by (rule outcome_Inr) code_simp
  have h2: "\<forall>k. CallerBuffer 0 \<noteq> CacheBuffer k" by simp
  have h3: "\<forall>k. temp_chunk_buffer_map ?s k \<noteq> Some (CallerBuffer 0)"
    by (simp add: new_ForeignStorageMgr_def)
  have h4: "\<forall>k. temp_chunk_buffer_map ?t k \<noteq> Some (CallerBuffer 0)"
    by (simp add: ex_staged_def new_ForeignStorageMgr_def)
  have e: "calls (state_of ?R) =
     [PopulateChunkMetadata [1, 2],
      GetChunkBuffersForCaching [[1, 2, 3, 0], [1, 2, 4, 0, 1], [1, 2, 4, 0, 2], [1, 2, 5, 0]],
      PopulateChunkBuffers [1, 2]
        [([1, 2, 3, 0], CacheBuffer [1, 2, 3, 0]), ([1, 2, 4, 0, 1], CacheBuffer [1, 2, 4, 0, 1]),
         ([1, 2, 4, 0, 2], CacheBuffer [1, 2, 4, 0, 2]), ([1, 2, 5, 0], CacheBuffer [1, 2, 5, 0])]]"
    "fl_buffer (the (returned ?R)) = CacheBuffer [1, 2, 4, 0, 1]"
    "\<not> fl_cached (the (returned ?R))"
    "fl_chunk_keys (the (returned ?R)) = [[1, 2, 3, 0], [1, 2, 4, 0, 1], [1, 2, 4, 0, 2], [1, 2, 5, 0]]"
    "calls (state_of ?Q) = []"
    "fl_buffer (the (returned ?Q)) = StagingBuffer 0"
    by code_simp+
  have en: "is_cache_enabled ?s" "\<not> is_cache_enabled ?t"
    by (simp_all add: is_cache_enabled_def new_ForeignStorageMgr_def ex_staged_def)
  show ?thesis
    using fetchBuffer_copy [OF r h2 h3, of 16] fetchBuffer_copy [OF q h2 h4, of 16] h2 h3 h4 e en
    by simp
qed

theorem fetchBuffer_copy_counterexample:
  "\<not> is_cache_enabled (new_ForeignStorageMgr None) \<and>
   fl_buffer (the (returned (fetchBuffer_source ex_world (new_ForeignStorageMgr None)
                               [1, 2, 4, 0, 1] (CallerBuffer 0)))) = CallerBuffer 0 \<and>
   fl_chunk_keys (the (returned (fetchBuffer_source ex_world (new_ForeignStorageMgr None)
                                   [1, 2, 4, 0, 1] (CallerBuffer 0)))) =
     [[1, 2, 3, 0], [1, 2, 4, 0, 1], [1, 2, 4, 0, 2], [1, 2, 5, 0]] \<and>
   calls (state_of (fetchBuffer ex_world (new_ForeignStorageMgr None) [1, 2, 4, 0, 1]
                      (CallerBuffer 0) 16)) =
     [PopulateChunkMetadata [1, 2],
      PopulateChunkBuffers [1, 2]
        [([1, 2, 4, 0, 1], CallerBuffer 0), ([1, 2, 3, 0], StagingBuffer 0),
         ([1, 2, 4, 0, 2], StagingBuffer 1), ([1, 2, 5, 0], StagingBuffer 2)]]"
  by code_simp

theorem fetchBuffer_promotion_witness:
  "foreign_storage_cache (new_ForeignStorageMgr (Some ex_hot_cache)) = Some ex_hot_cache \<and>
   getCachedChunkIfExists ex_hot_cache [1, 2, 1, 0] \<noteq> None \<and>
   getCachedChunkIfExists ex_hot_cache [1, 2, 4, 0, 1] = None \<and>
   calls (state_of (fetchBuffer ex_world (new_ForeignStorageMgr (Some ex_hot_cache))
                      [1, 2, 1, 0] (CallerBuffer 0) 16)) =
     [CopyTo (CacheBuffer [1, 2, 1, 0]) (CallerBuffer 0) 16] \<and>
   foreign_storage_cache (state_of (fetchBuffer ex_world (new_ForeignStorageMgr (Some ex_hot_cache))
                      [1, 2, 1, 0] (CallerBuffer 0) 16)) = Some ex_hot_cache \<and>
   filter is_CacheTableChunks
     (calls (state_of (fetchBuffer ex_world (new_ForeignStorageMgr (Some ex_hot_cache))
                      [1, 2, 4, 0, 1] (CallerBuffer 0) 16))) =
     [CacheTableChunks [[1, 2, 3, 0], [1, 2, 4, 0, 1], [1, 2, 4, 0, 2], [1, 2, 5, 0]]]"
proof -
  let ?s = "new_ForeignStorageMgr (Some ex_hot_cache)"
  let ?F = "fetchBuffer ex_world ?s [1, 2, 1, 0] (CallerBuffer 0) 16"
  let ?G = "fetchBuffer ex_world ?s [1, 2, 4, 0, 1] (CallerBuffer 0) 16"
  have c: "foreign_storage_cache ?s = Some ex_hot_cache"
    by (simp add: new_ForeignStorageMgr_def)
  have "returned ?F \<noteq> None" "returned ?G \<noteq> None" by code_simp+
  then have f: "?F = Inr ((), state_of ?F)" and g: "?G = Inr ((), state_of ?G)"
    using outcome_Inr by fastforce+
  have p: "getCachedChunkIfExists ex_hot_cache [1, 2, 1, 0] \<noteq> None"
    "getCachedChunkIfExists ex_hot_cache [1, 2, 4, 0, 1] = None"
    by (simp_all add: getCachedChunkIfExists_def ex_hot_cache_def ex_cache_def)
  have e: "filter is_CacheTableChunks (calls (state_of ?G)) =
     [CacheTableChunks [[1, 2, 3, 0], [1, 2, 4, 0, 1], [1, 2, 4, 0, 2], [1, 2, 5, 0]]]"
    by code_simp
  show ?thesis
    using fetchBuffer_promotion [OF c f] fetchBuffer_promotion [OF c g] c p e
    by (simp add: new_ForeignStorageMgr_def)
qed

section \<open>Refresh: the loops and the steps\<close>





lemma populate_fragment_ok:
  assumes "foreign_storage_cache s = Some c" and "getDataWrapper s tk = Inr dw"
    and "populateChunkBuffers w tk (map (\<lambda>k. (k, CacheBuffer k)) ks) = None"
  shows "populate_fragment w s tk ks =
           Inr ((), s\<lparr>foreign_storage_cache := Some (c\<lparr>pending_chunks := pending_chunks c @ ks\<rparr>),
                      calls := calls s @ [GetChunkBuffersForCaching ks,
                        PopulateChunkBuffers tk (map (\<lambda>k. (k, CacheBuffer k)) ks)]\<rparr>)"
  using assms
  by (simp add: populate_fragment_def getChunkBuffersForCaching_def emit_def
      getDataWrapper_def Let_def split: sum.splits option.splits)







lemma state_of_Inl_Inr [simp]:
  "state_of (Inl (e, s)) = s" "state_of (Inr (x, s)) = s"
  by (simp_all add: state_of_def)


lemma fragment_boundary_after_flush:
  "fragment_boundary w s tk l f =
     (case (if length (rl_chunk_keys_in_fragment l) > 0
            then populate_fragment w s tk (rl_chunk_keys_in_fragment l)
            else Inr ((), s)) of
        Inl e \<Rightarrow> Inl e
      | Inr (u, s1) \<Rightarrow>
          (if rl_total_time l +
                duration_cast_seconds w
                  (clock_now w (clock_reads s1) - rl_fragment_refresh_start_time l)
              \<ge> MAX_REFRESH_TIME_IN_SECONDS
           then Inr ((True, l\<lparr>rl_chunk_keys_in_fragment := [],
                              rl_total_time := rl_total_time l +
                                duration_cast_seconds w
                                  (clock_now w (clock_reads s1) - rl_fragment_refresh_start_time l)\<rparr>),
                     s1\<lparr>clock_reads := Suc (clock_reads s1),
                        calls := calls s1 @ [LogWarning tk (rl_fragment_id l)]\<rparr>)
           else Inr ((False, l\<lparr>rl_chunk_keys_in_fragment := [],
                               rl_total_time := rl_total_time l +
                                 duration_cast_seconds w
                                   (clock_now w (clock_reads s1) - rl_fragment_refresh_start_time l),
                               rl_fragment_refresh_start_time := clock_now w (Suc (clock_reads s1)),
                               rl_fragment_id := f\<rparr>),
                     s1\<lparr>clock_reads := Suc (Suc (clock_reads s1))\<rparr>)))"
  by (simp add: fragment_boundary_def now_def emit_def Let_def split: sum.splits prod.splits)











lemma recoverDataWrapperFromDisk_calls:
  "\<exists>evs. calls (state_of (recoverDataWrapperFromDisk w s k)) = calls s @ evs \<and>
          (\<forall>e \<in> set evs. \<not> is_ClearForTablePrefix e \<and> event_keys e = [])"
  by (auto simp add: recoverDataWrapperFromDisk_def state_of_def Let_def emit_def
      split: sum.splits option.splits prod.splits)

lemma refresh_prepare_outcomes:
  assumes c: "foreign_storage_cache s = Some c"
  shows "(\<forall>e s'. refresh_prepare w s tk = Inl (e, s') \<longrightarrow> foreign_storage_cache s' = Some c) \<and>
         (\<forall>am old mv s5. refresh_prepare w s tk = Inr ((am, old, mv), s5) \<longrightarrow>
            foreign_storage_cache s5 =
              Some (c\<lparr>cache_files :=
                       insert (getCacheDirectoryForTablePrefix c tk @ ''/wrapper_metadata.json'')
                         (cache_files c)\<rparr>) \<and>
            old = getCachedChunksForKeyPrefix c tk \<and> populateChunkMetadata w tk = Inr mv \<and>
            isTableKey tk \<and> (\<exists>ft. get_foreign_table w tk = Inr ft \<and> am = isAppendMode ft)) \<and>
         (\<exists>evs. calls (state_of (refresh_prepare w s tk)) = calls s @ evs \<and>
            (\<forall>e \<in> set evs. \<not> is_ClearForTablePrefix e \<and> event_keys e = []))"
    (is "?A (refresh_prepare w s tk) \<and> ?B (refresh_prepare w s tk) \<and> ?C (refresh_prepare w s tk)")
proof (cases "isTableKey tk")
  case False
  then have "refresh_prepare w s tk = Inl (CheckFailed, s)" by (simp add: refresh_prepare_def)
  then show ?thesis using c by simp
next
  case tk: True
  show ?thesis
  proof (cases "get_foreign_table w tk")
    case (Inl e)
    then have "refresh_prepare w s tk = Inl (e, s)" using tk by (simp add: refresh_prepare_def)
    then show ?thesis using c by simp
  next
    case ft: (Inr ft)
    let ?am = "isAppendMode ft"
    note cf = createDataWrapperIfNotExists_frame [of w s tk]
    show ?thesis
    proof (cases "createDataWrapperIfNotExists w s tk")
      case (Inl e)
      obtain e0 s0 where e: "e = (e0, s0)" by (cases e)
      have "refresh_prepare w s tk = Inl (e0, s0)"
        using tk ft Inl e by (simp add: refresh_prepare_def)
      then show ?thesis using cf c Inl e by simp
    next
      case cr: (Inr x)
      obtain created s1 where x: "x = (created, s1)" by (cases x)
      have s1: "calls s1 = calls s" "foreign_storage_cache s1 = Some c"
        using cf cr x c by simp_all
      let ?R = "(if created \<and> ?am then recoverDataWrapperFromDisk w s1 tk else Inr (False, s1))"
      have Rc: "foreign_storage_cache (state_of ?R) = Some c"
        using recoverDataWrapperFromDisk_frame [of w s1 tk] s1 by simp
      obtain evs1 where Re: "calls (state_of ?R) = calls s @ evs1"
        "\<forall>e \<in> set evs1. \<not> is_ClearForTablePrefix e \<and> event_keys e = []"
        using recoverDataWrapperFromDisk_calls [of w s1 tk] s1(1) by (cases "created \<and> ?am") auto
      have unfold: "refresh_prepare w s tk =
        (case ?R of
           Inl e \<Rightarrow> Inl e
         | Inr (recovered, s2) \<Rightarrow>
             (case foreign_storage_cache s2 of
                None \<Rightarrow> Inl (UndefinedBehaviour, s2)
              | Some c \<Rightarrow>
                  (case getDataWrapper s2 tk of
                     Inl e \<Rightarrow> Inl (e, s2)
                   | Inr data_wrapper \<Rightarrow>
                       (case populateChunkMetadata w tk of
                          Inl ex \<Rightarrow> Inl (Thrown ex, emit (PopulateChunkMetadata tk) s2)
                        | Inr metadata_vec \<Rightarrow>
                            (case serializeDataWrapperInternals w tk
                                    (getCacheDirectoryForTablePrefix c tk @ ''/wrapper_metadata.json'') of
                               Some ex \<Rightarrow>
                                 Inl (Thrown ex,
                                   emit (SerializeDataWrapperInternals tk
                                     (getCacheDirectoryForTablePrefix c tk @ ''/wrapper_metadata.json''))
                                     (emit (PopulateChunkMetadata tk) s2))
                             | None \<Rightarrow>
                                 Inr ((?am, getCachedChunksForKeyPrefix c tk, metadata_vec),
                                   (emit (SerializeDataWrapperInternals tk
                                     (getCacheDirectoryForTablePrefix c tk @ ''/wrapper_metadata.json''))
                                     (emit (PopulateChunkMetadata tk) s2))
                                   \<lparr>foreign_storage_cache :=
                                      Some (c\<lparr>cache_files :=
                                        insert (getCacheDirectoryForTablePrefix c tk @
                                                  ''/wrapper_metadata.json'') (cache_files c)\<rparr>)\<rparr>))))))"
        unfolding refresh_prepare_def Let_def using tk ft cr x by simp
      show ?thesis
      proof (cases ?R)
        case (Inl e)
        obtain e0 s0 where e: "e = (e0, s0)" by (cases e)
        have "refresh_prepare w s tk = Inl (e0, s0)" unfolding unfold using Inl e by simp
        then show ?thesis using Rc Re Inl e by simp
      next
        case rr: (Inr y)
        obtain recovered s2 where y: "y = (recovered, s2)" by (cases y)
        have s2: "foreign_storage_cache s2 = Some c" "calls s2 = calls s @ evs1"
          using Rc Re(1) rr y by simp_all
        show ?thesis
        proof (cases "getDataWrapper s2 tk")
          case (Inl e)
          have "refresh_prepare w s tk = Inl (e, s2)" unfolding unfold using rr y s2 Inl by simp
          then show ?thesis using s2 Re(2) by simp
        next
          case dw: (Inr dw)
          show ?thesis
          proof (cases "populateChunkMetadata w tk")
            case (Inl ex)
            have "refresh_prepare w s tk = Inl (Thrown ex, emit (PopulateChunkMetadata tk) s2)"
              unfolding unfold using rr y s2 dw Inl by simp
            then show ?thesis using s2 Re(2) by (simp add: emit_def)
          next
            case mv: (Inr mv)
            let ?path = "getCacheDirectoryForTablePrefix c tk @ ''/wrapper_metadata.json''"
            let ?s4 = "emit (SerializeDataWrapperInternals tk ?path) (emit (PopulateChunkMetadata tk) s2)"
            show ?thesis
            proof (cases "serializeDataWrapperInternals w tk ?path")
              case (Some ex)
              have "refresh_prepare w s tk = Inl (Thrown ex, ?s4)"
                unfolding unfold using rr y s2 dw mv Some by simp
              then show ?thesis using s2 Re(2) by (simp add: emit_def)
            next
              case None
              have "refresh_prepare w s tk =
                      Inr ((?am, getCachedChunksForKeyPrefix c tk, mv),
                           ?s4\<lparr>foreign_storage_cache :=
                                 Some (c\<lparr>cache_files := insert ?path (cache_files c)\<rparr>)\<rparr>)"
                unfolding unfold using rr y s2 dw mv None by simp
              then show ?thesis using s2 Re(2) tk ft mv by (simp add: emit_def)
            qed
          qed
        qed
      qed
    qed
  qed
qed

lemma state_of_catch_runtime_error [simp]:
  "state_of (catch_runtime_error r) = state_of r"
  by (auto simp add: catch_runtime_error_def state_of_def
      split: sum.splits prod.splits failure.splits exception.splits)




section \<open>Refresh: append mode, errors, the time budget\<close>









section \<open>Exceptions of a refresh: proofs\<close>

lemma get_foreign_table_failure:
  "get_foreign_table w k = Inl e \<Longrightarrow> e = CheckFailed"
  by (simp add: get_foreign_table_def Let_def split: if_splits option.splits table_descriptor.splits)

lemma table_key_of_failure: "table_key_of k = Inl e \<Longrightarrow> e = UndefinedBehaviour"
  by (simp add: table_key_of_def key_at_def Let_def split: if_splits sum.splits)

lemma createDataWrapperIfNotExists_failure:
  assumes "createDataWrapperIfNotExists w s k = Inl (e, s')"
  shows "e \<noteq> PostEvictionRefreshException x" and "calls s' = calls s"
  using assms get_foreign_table_failure [of w k] table_key_of_failure [of k]
  by (auto simp add: createDataWrapperIfNotExists_def Let_def
      split: sum.splits if_splits)

lemma recoverDataWrapperFromDisk_quiet:
  "(\<exists>evs. calls (state_of (recoverDataWrapperFromDisk w s k)) = calls s @ evs \<and>
          (\<forall>e \<in> set evs. thrown_by w e = None)) \<and>
   failure_of (recoverDataWrapperFromDisk w s k) \<noteq> Some (PostEvictionRefreshException x)"
  using table_key_of_failure [of k]
  by (auto simp add: recoverDataWrapperFromDisk_def state_of_def failure_of_def Let_def emit_def
      getDataWrapper_def
      split: sum.splits option.splits prod.splits)

lemma refresh_prepare_quiet:
  "(\<exists>evs. calls (state_of (refresh_prepare w s tk)) = calls s @ evs \<and>
          (\<forall>e \<in> set evs. thrown_by w e = None)) \<and>
   failure_of (refresh_prepare w s tk) \<noteq> Some (PostEvictionRefreshException x)"
proof (cases "isTableKey tk")
  case False
  then have "refresh_prepare w s tk = Inl (CheckFailed, s)" by (simp add: refresh_prepare_def)
  then show ?thesis by (simp add: state_of_def failure_of_def)
next
  case tk: True
  show ?thesis
  proof (cases "get_foreign_table w tk")
    case (Inl e)
    then have "refresh_prepare w s tk = Inl (e, s)" using tk by (simp add: refresh_prepare_def)
    then show ?thesis using get_foreign_table_failure [OF Inl]
      by (simp add: state_of_def failure_of_def)
  next
    case ft: (Inr ft)
    show ?thesis
    proof (cases "createDataWrapperIfNotExists w s tk")
      case (Inl e)
      obtain e0 s0 where e: "e = (e0, s0)" by (cases e)
      have "refresh_prepare w s tk = Inl (e0, s0)"
        using tk ft Inl e by (simp add: refresh_prepare_def)
      moreover have "createDataWrapperIfNotExists w s tk = Inl (e0, s0)" using Inl e by simp
      ultimately show ?thesis
        using createDataWrapperIfNotExists_failure [of w s tk e0 s0]
        by (simp add: state_of_def failure_of_def)
    next
      case cr: (Inr y)
      obtain created s1 where y: "y = (created, s1)" by (cases y)
      have s1: "calls s1 = calls s"
        using createDataWrapperIfNotExists_frame [of w s tk] cr y by simp
      let ?R = "(if created \<and> isAppendMode ft then recoverDataWrapperFromDisk w s1 tk
                 else Inr (False, s1))"
      obtain evs1 where Re: "calls (state_of ?R) = calls s @ evs1"
        "\<forall>e \<in> set evs1. thrown_by w e = None"
        using recoverDataWrapperFromDisk_quiet [of w s1 tk x] s1
        by (cases "created \<and> isAppendMode ft") auto
      have Rf: "failure_of ?R \<noteq> Some (PostEvictionRefreshException x)"
        using recoverDataWrapperFromDisk_quiet [of w s1 tk x]
        by (simp add: failure_of_def)
      show ?thesis
      proof (cases ?R)
        case (Inl e)
        obtain e0 s0 where e: "e = (e0, s0)" by (cases e)
        have "refresh_prepare w s tk = Inl (e0, s0)"
          unfolding refresh_prepare_def Let_def using tk ft cr y Inl e by simp
        then show ?thesis using Re Rf Inl e by (simp add: state_of_def failure_of_def)
      next
        case rr: (Inr z)
        obtain recovered s2 where z: "z = (recovered, s2)" by (cases z)
        have s2: "calls s2 = calls s @ evs1" using Re(1) rr z by simp
        have "(\<exists>evs. calls (state_of (refresh_prepare w s tk)) = calls s2 @ evs \<and>
                 (\<forall>e \<in> set evs. thrown_by w e = None)) \<and>
              failure_of (refresh_prepare w s tk) \<noteq> Some (PostEvictionRefreshException x)"
          unfolding refresh_prepare_def Let_def
          using tk ft cr y rr z table_key_of_failure [of tk]
          by (auto simp add: state_of_def failure_of_def emit_def getDataWrapper_def
              split: sum.splits option.splits)
        then show ?thesis using s2 Re(2) by auto
      qed
    qed
  qed
qed

lemma fails_as_raised_Inr:
  "calls s' = calls s @ evs \<Longrightarrow> raised w evs = None \<Longrightarrow> fails_as_raised w s (Inr (x, s'))"
  by (simp add: fails_as_raised_def state_of_def failure_of_def)

lemma fails_as_raised_Inl:
  "calls s' = calls s @ evs \<Longrightarrow> raised w evs = None \<Longrightarrow>
   e = CheckFailed \<or> e = UndefinedBehaviour \<Longrightarrow> fails_as_raised w s (Inl (e, s'))"
  by (auto simp add: fails_as_raised_def state_of_def failure_of_def)

lemma fails_as_raised_Thrown:
  "calls s' = calls s @ evs \<Longrightarrow> raised w evs = Some ex \<Longrightarrow>
   fails_as_raised w s (Inl (Thrown ex, s'))"
  by (simp add: fails_as_raised_def state_of_def failure_of_def)

lemma fails_as_raised_Inl_Inr:
  "fails_as_raised w s (Inl e :: 'a outcome) \<Longrightarrow> fails_as_raised w s (Inl e :: 'b outcome)"
  by (cases e) (simp add: fails_as_raised_def state_of_def failure_of_def)

lemma raised_append: "raised w evs1 = None \<Longrightarrow> raised w (evs1 @ evs2) = raised w evs2"
  by (simp add: raised_def split: if_splits)

lemma fails_as_raised_seq:
  assumes "fails_as_raised w s (Inr (x, s1))" and "fails_as_raised w s1 r"
  shows "fails_as_raised w s r"
proof -
  obtain evs1 where e1: "calls s1 = calls s @ evs1" "raised w evs1 = None"
    using assms(1) by (auto simp add: fails_as_raised_def state_of_def failure_of_def)
  obtain evs2 where e2: "calls (state_of r) = calls s1 @ evs2"
    "(case failure_of r of
           Some (Thrown ex) \<Rightarrow> raised w evs2 = Some ex
         | Some (PostEvictionRefreshException x) \<Rightarrow> False
         | _ \<Rightarrow> raised w evs2 = None)"
    using assms(2) unfolding fails_as_raised_def by blast
  have "calls (state_of r) = calls s @ (evs1 @ evs2)" using e1 e2 by simp
  moreover have "(case failure_of r of
           Some (Thrown ex) \<Rightarrow> raised w (evs1 @ evs2) = Some ex
         | Some (PostEvictionRefreshException x) \<Rightarrow> False
         | _ \<Rightarrow> raised w (evs1 @ evs2) = None)"
    using e2(2) unfolding raised_append [OF e1(2)] .
  ultimately show ?thesis unfolding fails_as_raised_def by blast
qed

lemma populate_fragment_raised: "fails_as_raised w s (populate_fragment w s tk ks)"
proof (cases "foreign_storage_cache s")
  case None
  then have "populate_fragment w s tk ks = Inl (UndefinedBehaviour, s)"
    by (simp add: populate_fragment_def)
  then show ?thesis by (simp add: fails_as_raised_Inl [where evs = "[]"] raised_def)
next
  case (Some c)
  let ?bufs = "map (\<lambda>k. (k, CacheBuffer k)) ks"
  let ?s1 = "s\<lparr>foreign_storage_cache := Some (c\<lparr>pending_chunks := pending_chunks c @ ks\<rparr>),
               calls := calls s @ [GetChunkBuffersForCaching ks]\<rparr>"
  let ?s2 = "s\<lparr>foreign_storage_cache := Some (c\<lparr>pending_chunks := pending_chunks c @ ks\<rparr>),
               calls := calls s @ [GetChunkBuffersForCaching ks, PopulateChunkBuffers tk ?bufs]\<rparr>"
  show ?thesis
  proof (cases "getDataWrapper s tk")
    case (Inl e)
    then have r: "populate_fragment w s tk ks = Inl (e, ?s1)"
      using Some
      by (simp add: populate_fragment_def getChunkBuffersForCaching_def emit_def
          getDataWrapper_def Let_def split: sum.splits option.splits)
    have "e = CheckFailed \<or> e = UndefinedBehaviour"
      using Inl table_key_of_failure [of tk]
      by (auto simp add: getDataWrapper_def split: sum.splits option.splits)
    then show ?thesis
      unfolding r
      by (intro fails_as_raised_Inl [where evs = "[GetChunkBuffersForCaching ks]"])
         (simp_all add: raised_def)
  next
    case (Inr dw)
    show ?thesis
    proof (cases "populateChunkBuffers w tk ?bufs")
      case None
      then have r: "populate_fragment w s tk ks = Inr ((), ?s2)"
        using Some Inr by (rule populate_fragment_ok [OF _ _, rotated 2])
      show ?thesis
        unfolding r
        by (intro fails_as_raised_Inr [where evs = "[GetChunkBuffersForCaching ks,
                 PopulateChunkBuffers tk ?bufs]"])
           (simp_all add: raised_def None)
    next
      case ex: (Some ex)
      then have r: "populate_fragment w s tk ks = Inl (Thrown ex, ?s2)"
        using Some Inr
        by (simp add: populate_fragment_def getChunkBuffersForCaching_def emit_def
            getDataWrapper_def Let_def split: sum.splits option.splits)
      show ?thesis
        unfolding r
        by (intro fails_as_raised_Thrown [where evs = "[GetChunkBuffersForCaching ks,
                 PopulateChunkBuffers tk ?bufs]"])
           (simp_all add: raised_def ex)
    qed
  qed
qed

lemma fails_as_raised_same:
  "calls s' = calls s \<Longrightarrow> fails_as_raised w s (Inr (x, s'))"
  "calls s' = calls s \<Longrightarrow> fails_as_raised w s (Inl (UndefinedBehaviour, s'))"
  "calls s' = calls s \<Longrightarrow> fails_as_raised w s (Inl (CheckFailed, s'))"
  by (simp_all add: fails_as_raised_def state_of_def failure_of_def raised_def)

lemma flush_raised:
  "fails_as_raised w s (if b then populate_fragment w s tk ks else Inr ((), s))"
  by (simp add: populate_fragment_raised fails_as_raised_same)

lemma fragment_boundary_raised: "fails_as_raised w s (fragment_boundary w s tk l f)"
proof -
  let ?P = "(if length (rl_chunk_keys_in_fragment l) > 0
            then populate_fragment w s tk (rl_chunk_keys_in_fragment l)
            else Inr ((), s))"
  have P: "fails_as_raised w s ?P" by (rule flush_raised)
  show ?thesis
  proof (cases ?P)
    case (Inl e)
    then have r: "fragment_boundary w s tk l f = Inl e"
      by (simp add: fragment_boundary_after_flush)
    have "fails_as_raised w s (Inl e :: unit outcome)" using P Inl by simp
    then show ?thesis unfolding r by (rule fails_as_raised_Inl_Inr)
  next
    case (Inr x)
    obtain u s1 where x: "x = (u, s1)" by (cases x)
    have "\<exists>y s2. fragment_boundary w s tk l f = Inr (y, s2) \<and>
            (calls s2 = calls s1 \<or> calls s2 = calls s1 @ [LogWarning tk (rl_fragment_id l)])"
      using Inr x by (auto simp add: fragment_boundary_after_flush)
    then obtain y s2 where r: "fragment_boundary w s tk l f = Inr (y, s2)"
      and c: "calls s2 = calls s1 \<or> calls s2 = calls s1 @ [LogWarning tk (rl_fragment_id l)]"
      by blast
    have "fails_as_raised w s1 (Inr (y, s2))"
      using c
    proof
      assume "calls s2 = calls s1"
      then show ?thesis by (rule fails_as_raised_same)
    next
      assume "calls s2 = calls s1 @ [LogWarning tk (rl_fragment_id l)]"
      then show ?thesis by (rule fails_as_raised_Inr) (simp add: raised_def)
    qed
    moreover have "fails_as_raised w s (Inr (u, s1))" using P Inr x by simp
    ultimately show ?thesis unfolding r by (rule fails_as_raised_seq [rotated])
  qed
qed

lemma refresh_loop_body_raised:
  "fails_as_raised w s (refresh_loop_body w tk am last_frag_id k l s)"
proof -
  let ?r = "refresh_loop_body w tk am last_frag_id k l s"
  let ?B = "(if k ! CHUNK_KEY_FRAGMENT_IDX \<noteq> rl_fragment_id l
             then fragment_boundary w s tk l (k ! CHUNK_KEY_FRAGMENT_IDX)
             else Inr ((False, l), s))"
  have B: "fails_as_raised w s ?B"
    by (simp add: fragment_boundary_raised fails_as_raised_same)
  show ?thesis
  proof (cases ?B)
    case (Inl e)
    have "?r = Inl (UndefinedBehaviour, s) \<or> ?r = Inr ((False, l), s) \<or> ?r = Inl e"
      unfolding refresh_loop_body_def Inl by (simp split: option.splits)
    moreover have "fails_as_raised w s (Inl e :: (bool \<times> refresh_locals) outcome)"
      using B Inl by simp
    ultimately show ?thesis by (auto simp add: fails_as_raised_same)
  next
    case (Inr x)
    obtain bl s1 where x: "x = (bl, s1)" by (cases x)
    have 1: "fails_as_raised w s (Inr (bl, s1))" using B Inr x by simp
    have "?r = Inl (UndefinedBehaviour, s) \<or> ?r = Inr ((False, l), s) \<or>
          (\<exists>y. ?r = Inr (y, s1)) \<or> ?r = Inl (CheckFailed, s1)"
      unfolding refresh_loop_body_def Inr x Let_def by (auto split: option.splits)
    then consider "?r = Inl (UndefinedBehaviour, s)" | "?r = Inr ((False, l), s)"
      | y where "?r = Inr (y, s1)" | "?r = Inl (CheckFailed, s1)"
      by blast
    then show ?thesis
    proof cases
      case 1
      then show ?thesis by (simp add: fails_as_raised_same)
    next
      case 2
      then show ?thesis by (simp add: fails_as_raised_same)
    next
      case 3
      have "fails_as_raised w s1 (Inr (y, s1))" by (simp add: fails_as_raised_same)
      with \<open>fails_as_raised w s (Inr (bl, s1))\<close> show ?thesis
        unfolding 3 by (rule fails_as_raised_seq)
    next
      case 4
      have "fails_as_raised w s1 (Inl (CheckFailed, s1) :: (bool \<times> refresh_locals) outcome)"
        by (simp add: fails_as_raised_same)
      with \<open>fails_as_raised w s (Inr (bl, s1))\<close> show ?thesis
        unfolding 4 by (rule fails_as_raised_seq)
    qed
  qed
qed

lemma refresh_loop_raised:
  "fails_as_raised w s (refresh_loop w tk am last_frag_id ks l s)"
proof (induction ks arbitrary: l s)
  case Nil
  show ?case by (simp add: fails_as_raised_same)
next
  case (Cons k ks)
  note body = refresh_loop_body_raised [of w s tk am last_frag_id k l]
  show ?case
  proof (cases "refresh_loop_body w tk am last_frag_id k l s")
    case (Inl e)
    then have r: "refresh_loop w tk am last_frag_id (k # ks) l s = Inl e" by simp
    have "fails_as_raised w s (Inl e :: (bool \<times> refresh_locals) outcome)" using body Inl by simp
    then show ?thesis unfolding r by (rule fails_as_raised_Inl_Inr)
  next
    case (Inr x)
    obtain b l1 s1 where x: "x = ((b, l1), s1)" by (cases x) auto
    have 1: "fails_as_raised w s (Inr ((b, l1), s1))" using body Inr x by simp
    show ?thesis
    proof (cases b)
      case True
      then have r: "refresh_loop w tk am last_frag_id (k # ks) l s = Inr (l1, s1)"
        using Inr x by simp
      have "fails_as_raised w s1 (Inr (l1, s1))" by (simp add: fails_as_raised_same)
      with 1 show ?thesis unfolding r by (rule fails_as_raised_seq)
    next
      case False
      then have r: "refresh_loop w tk am last_frag_id (k # ks) l s =
                   refresh_loop w tk am last_frag_id ks l1 s1"
        using Inr x by simp
      from 1 Cons.IH [of s1 l1] show ?thesis unfolding r by (rule fails_as_raised_seq)
    qed
  qed
qed

lemma refresh_finish_raised: "fails_as_raised w s (refresh_finish w s tk l)"
proof -
  let ?P = "(if length (rl_chunk_keys_in_fragment l) > 0
            then populate_fragment w s tk (rl_chunk_keys_in_fragment l)
            else Inr ((), s))"
  have P: "fails_as_raised w s ?P" by (rule flush_raised)
  show ?thesis
  proof (cases ?P)
    case (Inl e)
    then have r: "refresh_finish w s tk l = Inl e" by (simp add: refresh_finish_def)
    have "fails_as_raised w s (Inl e :: unit outcome)" using P Inl by simp
    then show ?thesis unfolding r .
  next
    case (Inr x)
    obtain u s5 where x: "x = (u, s5)" by (cases x)
    have 1: "fails_as_raised w s (Inr (u, s5))" using P Inr x by simp
    have "refresh_finish w s tk l = Inl (UndefinedBehaviour, s5) \<or>
          (\<exists>s6. refresh_finish w s tk l = Inr ((), s6) \<and>
                calls s6 = calls s5 @ [CacheTableChunks (rl_chunk_keys_to_be_cached l)])"
      using Inr x by (simp add: refresh_finish_def emit_def split: option.splits)
    then have "fails_as_raised w s5 (refresh_finish w s tk l)"
    proof
      assume "refresh_finish w s tk l = Inl (UndefinedBehaviour, s5)"
      then show ?thesis by (simp add: fails_as_raised_same)
    next
      assume "\<exists>s6. refresh_finish w s tk l = Inr ((), s6) \<and>
                calls s6 = calls s5 @ [CacheTableChunks (rl_chunk_keys_to_be_cached l)]"
      then obtain s6 where r: "refresh_finish w s tk l = Inr ((), s6)"
        and c: "calls s6 = calls s5 @ [CacheTableChunks (rl_chunk_keys_to_be_cached l)]"
        by blast
      show ?thesis unfolding r using c by (rule fails_as_raised_Inr) (simp add: raised_def)
    qed
    with 1 show ?thesis by (rule fails_as_raised_seq)
  qed
qed

lemma new_metadata_loop_failure:
  "new_metadata_loop mv last_frag_id acc = Inl e \<Longrightarrow> e = UndefinedBehaviour"
  by (induction mv arbitrary: acc) (auto simp add: key_at_def split: if_splits)

lemma last_frag_loop_failure:
  "last_frag_loop md last_frag_id = Inl e \<Longrightarrow> e = UndefinedBehaviour"
  by (induction md arbitrary: last_frag_id) (auto simp add: key_at_def split: if_splits)

lemma refresh_try_raised: "fails_as_raised w s (refresh_try w s tk am last_frag_id mv old)"
proof -
  let ?r = "refresh_try w s tk am last_frag_id mv old"
  let ?V = "(if am then new_metadata_loop mv last_frag_id [] else Inr mv)"
  show ?thesis
  proof (cases ?V)
    case (Inl e)
    then have "?r = Inl (e, s)" by (simp add: refresh_try_def)
    moreover have "e = UndefinedBehaviour"
      using Inl new_metadata_loop_failure [of mv last_frag_id "[]" e] by (simp split: if_splits)
    ultimately show ?thesis by (simp add: fails_as_raised_same)
  next
    case vec: (Inr vec)
    show ?thesis
    proof (cases "foreign_storage_cache s")
      case None
      then have "?r = Inl (UndefinedBehaviour, s)" using vec by (simp add: refresh_try_def)
      then show ?thesis by (simp add: fails_as_raised_same)
    next
      case (Some c)
      show ?thesis
      proof (cases "cacheMetadataVec_fault w vec")
        case fault: (Some ex)
        then have r: "?r = Inl (Thrown ex, emit (CacheMetadataVec vec) s)"
          using vec Some by (simp add: refresh_try_def Let_def)
        show ?thesis
          unfolding r
          by (rule fails_as_raised_Thrown [where evs = "[CacheMetadataVec vec]"])
             (simp_all add: emit_def raised_def fault)
      next
        case None
        let ?s3 = "s\<lparr>calls := calls s @ [CacheMetadataVec vec],
                     foreign_storage_cache := Some (cacheMetadataVec c vec),
                     clock_reads := Suc (clock_reads s)\<rparr>"
        let ?l = "\<lparr>rl_fragment_id = old ! 0 ! CHUNK_KEY_FRAGMENT_IDX,
                   rl_chunk_keys_in_fragment = [],
                   rl_chunk_keys_to_be_cached = [],
                   rl_total_time = 0,
                   rl_fragment_refresh_start_time = clock_now w (clock_reads s)\<rparr>"
        let ?L = "refresh_loop w tk am last_frag_id old ?l ?s3"
        have r: "?r =
                   (if old \<noteq> [] then
                      (if \<not> CHUNK_KEY_FRAGMENT_IDX < length (old ! 0)
                       then Inl (UndefinedBehaviour, ?s3)
                       else case ?L of
                              Inl e \<Rightarrow> Inl e
                            | Inr (l, s4) \<Rightarrow> refresh_finish w s4 tk l)
                    else Inr ((), ?s3))"
          using vec Some None by (simp add: refresh_try_def Let_def emit_def now_def)
        have 0: "fails_as_raised w s (Inr ((), ?s3))"
          by (rule fails_as_raised_Inr [where evs = "[CacheMetadataVec vec]"])
             (simp_all add: raised_def None)
        have L: "fails_as_raised w ?s3 ?L" by (rule refresh_loop_raised)
        have "fails_as_raised w ?s3 ?r"
        proof (cases ?L)
          case (Inl e)
          then have "?r = Inl (UndefinedBehaviour, ?s3) \<or> ?r = Inl e \<or> ?r = Inr ((), ?s3)"
            unfolding r by simp
          moreover have "fails_as_raised w ?s3 (Inl e :: unit outcome)"
            using L Inl fails_as_raised_Inl_Inr [of w ?s3 e] by simp
          ultimately show ?thesis by (auto simp add: fails_as_raised_same)
        next
          case (Inr x)
          obtain l4 s4 where x: "x = (l4, s4)" by (cases x)
          have "?r = Inl (UndefinedBehaviour, ?s3) \<or> ?r = refresh_finish w s4 tk l4 \<or>
                ?r = Inr ((), ?s3)"
            unfolding r Inr x by simp
          moreover have "fails_as_raised w ?s3 (refresh_finish w s4 tk l4)"
            using L refresh_finish_raised [of w s4 tk l4] unfolding Inr x
            by (rule fails_as_raised_seq)
          ultimately show ?thesis by (auto simp add: fails_as_raised_same)
        qed
        with 0 show ?thesis by (rule fails_as_raised_seq)
      qed
    qed
  qed
qed

lemma catch_runtime_error_raised:
  assumes "fails_as_raised w s T" and "catch_runtime_error T = Inl (e, s')"
    and "calls s' = calls s @ evs"
  shows "(\<forall>ex. raised w evs = Some ex \<longrightarrow> e = rethrown ex) \<and>
         (\<forall>x. e = PostEvictionRefreshException x \<longrightarrow>
              raised w evs = Some x \<and> (\<exists>m. x = StdRuntimeError m)) \<and>
         (\<forall>ex. e = Thrown ex \<longrightarrow> raised w evs = Some ex \<and> (\<exists>m. ex = OtherException m))"
proof (cases T)
  case (Inr x)
  then show ?thesis using assms(2) by (simp add: catch_runtime_error_def)
next
  case (Inl y)
  obtain e0 s0 where y: "y = (e0, s0)" by (cases y)
  have s0: "s0 = s'"
    using assms(2) Inl y
    by (auto simp add: catch_runtime_error_def split: failure.splits exception.splits)
  have ev: "case e0 of Thrown ex \<Rightarrow> raised w evs = Some ex
              | PostEvictionRefreshException x \<Rightarrow> False
              | _ \<Rightarrow> raised w evs = None"
    using assms(1,3) Inl y s0
    by (auto simp add: fails_as_raised_def state_of_def failure_of_def)
  show ?thesis
  proof (cases e0)
    case (Thrown ex)
    have "e = rethrown ex"
      using assms(2) Inl y Thrown
      by (simp add: catch_runtime_error_def rethrown_def split: exception.splits)
    then show ?thesis using ev Thrown by (cases ex) (auto simp add: rethrown_def)
  next
    case (PostEvictionRefreshException x)
    then show ?thesis using ev by simp
  next
    case CheckFailed
    then have "e = CheckFailed" using assms(2) Inl y by (simp add: catch_runtime_error_def)
    then show ?thesis using ev CheckFailed by simp
  next
    case UndefinedBehaviour
    then have "e = UndefinedBehaviour"
      using assms(2) Inl y by (simp add: catch_runtime_error_def)
    then show ?thesis using ev UndefinedBehaviour by simp
  qed
qed

lemma raised_quiet: "\<forall>e \<in> set evs. thrown_by w e = None \<Longrightarrow> raised w evs = None"
  by (simp add: raised_def)

lemma refresh_last_frag_or_clear_outcomes:
  "(\<forall>e s'. refresh_last_frag_or_clear s tk am = Inl (e, s') \<longrightarrow>
       e = UndefinedBehaviour \<and> s' = s) \<and>
   (\<forall>x s'. refresh_last_frag_or_clear s tk am = Inr (x, s') \<longrightarrow>
       calls s' = calls s \<or> calls s' = calls s @ [ClearForTablePrefix tk])"
  using last_frag_loop_failure
  by (auto simp add: refresh_last_frag_or_clear_def emit_def
      split: option.splits sum.splits if_splits)

lemma refresh_prepare_scan_throws:
  assumes c: "foreign_storage_cache s = Some c"
    and tk: "isTableKey tk" and ft: "get_foreign_table w tk = Inr ft"
    and dw: "data_wrapper_map s tk = Some dw"
    and scan: "populateChunkMetadata w tk = Inl ex"
  shows "refresh_prepare w s tk = Inl (Thrown ex, emit (PopulateChunkMetadata tk) s)"
proof -
  have tko: "table_key_of tk = Inr tk"
    using isTableKey_cases [OF tk] by (auto simp add: table_key_of_eq)
  have cr: "createDataWrapperIfNotExists w s tk = Inr (False, s)"
    using tko dw by (simp add: createDataWrapperIfNotExists_def)
  have gw: "getDataWrapper s tk = Inr dw"
    using tko dw by (simp add: getDataWrapper_def)
  show ?thesis
    unfolding refresh_prepare_def Let_def using tk ft cr gw c scan by simp
qed

text \<open>
  C5 (amended).  A refresh in the cache, the cache being enabled.

  When the metadata scan of the wrapper throws, the refresh fails and the cache is as it
  was before the call; when the table has its wrapper, the failure is the exception of the
  scan, unchanged, and the scan is the only call made.

  For every failure of the refresh, \<open>evs\<close> being the calls it has made: when the last call
  is a \<^verbatim>\<open>cacheMetadataVec\<close> or a \<^verbatim>\<open>populateChunkBuffers\<close> that throws \<open>ex\<close>, the failure
  is \<^verbatim>\<open>PostEvictionRefreshException\<close> around \<open>ex\<close> if \<open>ex\<close> is a \<^verbatim>\<open>std::runtime_error\<close>, and
  \<open>ex\<close> itself, not wrapped, otherwise; a \<^verbatim>\<open>PostEvictionRefreshException\<close> wraps a
  \<^verbatim>\<open>std::runtime_error\<close> that the last call has thrown; an exception that comes out
  unwrapped is either another kind of exception thrown by the last call, or it was thrown
  before anything was evicted or cached again, the cache being as before the call.
\<close>

theorem refreshTableInCache_exceptions:
  assumes c: "foreign_storage_cache s = Some c"
  shows "(\<forall>ex. populateChunkMetadata w tk = Inl ex \<longrightarrow>
            (\<exists>e s'. refreshTableInCache w s tk = Inl (e, s') \<and>
                    foreign_storage_cache s' = Some c) \<and>
            (isTableKey tk \<and> (\<exists>ft. get_foreign_table w tk = Inr ft) \<and>
             data_wrapper_map s tk \<noteq> None \<longrightarrow>
               refreshTableInCache w s tk =
                 Inl (Thrown ex, emit (PopulateChunkMetadata tk) s))) \<and>
         (\<forall>e s' evs. refreshTableInCache w s tk = Inl (e, s') \<and> calls s' = calls s @ evs \<longrightarrow>
            (\<forall>ex. raised w evs = Some ex \<longrightarrow> e = rethrown ex) \<and>
            (\<forall>x. e = PostEvictionRefreshException x \<longrightarrow>
                 raised w evs = Some x \<and> (\<exists>m. x = StdRuntimeError m)) \<and>
            (\<forall>ex. e = Thrown ex \<longrightarrow>
                 raised w evs = Some ex \<and> (\<exists>m. ex = OtherException m) \<or>
                 raised w evs = None \<and> foreign_storage_cache s' = Some c))"
proof -
  let ?R = "refreshTableInCache w s tk"
  let ?After = "\<lambda>e s' evs.
            (\<forall>ex. raised w evs = Some ex \<longrightarrow> e = rethrown ex) \<and>
            (\<forall>x. e = PostEvictionRefreshException x \<longrightarrow>
                 raised w evs = Some x \<and> (\<exists>m. x = StdRuntimeError m)) \<and>
            (\<forall>ex. e = Thrown ex \<longrightarrow>
                 raised w evs = Some ex \<and> (\<exists>m. ex = OtherException m) \<or>
                 raised w evs = None \<and> foreign_storage_cache s' = Some c)"
  have en: "is_cache_enabled s" using c by (simp add: is_cache_enabled_def)
  note o = refresh_prepare_outcomes [OF c, of w tk]
  obtain evs0 where evs0: "calls (state_of (refresh_prepare w s tk)) = calls s @ evs0"
    "\<forall>e \<in> set evs0. thrown_by w e = None"
    using refresh_prepare_quiet [of w s tk] by blast
  have r0: "raised w evs0 = None" using evs0(2) by (rule raised_quiet)
  show ?thesis
  proof (cases "refresh_prepare w s tk")
    case (Inl y)
    obtain e0 s0 where y: "y = (e0, s0)" by (cases y)
    have R: "?R = Inl (e0, s0)" using en Inl y by (simp add: refreshTableInCache_def)
    have "\<forall>e s'. refresh_prepare w s tk = Inl (e, s') \<longrightarrow> foreign_storage_cache s' = Some c"
      using o by (rule conjunct1)
    then have c0: "foreign_storage_cache s0 = Some c" using Inl y by simp
    have np: "\<And>x. e0 \<noteq> PostEvictionRefreshException x"
      using refresh_prepare_quiet [of w s tk] Inl y by (simp add: failure_of_def)
    have ev: "calls s0 = calls s @ evs0" using evs0(1) Inl y by simp
    have scan: "\<forall>ex. populateChunkMetadata w tk = Inl ex \<longrightarrow>
            (\<exists>e s'. ?R = Inl (e, s') \<and> foreign_storage_cache s' = Some c) \<and>
            (isTableKey tk \<and> (\<exists>ft. get_foreign_table w tk = Inr ft) \<and>
             data_wrapper_map s tk \<noteq> None \<longrightarrow>
               ?R = Inl (Thrown ex, emit (PopulateChunkMetadata tk) s))"
    proof (intro allI impI conjI)
      fix ex
      show "\<exists>e s'. ?R = Inl (e, s') \<and> foreign_storage_cache s' = Some c"
        using R c0 by blast
    next
      fix ex
      assume scan: "populateChunkMetadata w tk = Inl ex"
        and pre: "isTableKey tk \<and> (\<exists>ft. get_foreign_table w tk = Inr ft) \<and>
                  data_wrapper_map s tk \<noteq> None"
      then obtain ft dw where "get_foreign_table w tk = Inr ft" "data_wrapper_map s tk = Some dw"
        by blast
      then have "refresh_prepare w s tk = Inl (Thrown ex, emit (PopulateChunkMetadata tk) s)"
        using c pre scan by (intro refresh_prepare_scan_throws) simp_all
      then show "?R = Inl (Thrown ex, emit (PopulateChunkMetadata tk) s)"
        using en by (simp add: refreshTableInCache_def)
    qed
    have after: "\<forall>e s' evs. ?R = Inl (e, s') \<and> calls s' = calls s @ evs \<longrightarrow> ?After e s' evs"
    proof (intro allI impI)
      fix e s' evs
      assume "?R = Inl (e, s') \<and> calls s' = calls s @ evs"
      then have "e = e0" "s' = s0" "evs = evs0" using R ev by simp_all
      then show "?After e s' evs" using r0 np c0 by simp
    qed
    from scan after show ?thesis by (rule conjI)
  next
    case (Inr y)
    obtain am old mv s5 where y: "y = ((am, old, mv), s5)" by (cases y) auto
    have "\<forall>am old mv s5. refresh_prepare w s tk = Inr ((am, old, mv), s5) \<longrightarrow>
            foreign_storage_cache s5 =
              Some (c\<lparr>cache_files :=
                       insert (getCacheDirectoryForTablePrefix c tk @ ''/wrapper_metadata.json'')
                         (cache_files c)\<rparr>) \<and>
            old = getCachedChunksForKeyPrefix c tk \<and> populateChunkMetadata w tk = Inr mv \<and>
            isTableKey tk \<and> (\<exists>ft. get_foreign_table w tk = Inr ft \<and> am = isAppendMode ft)"
      using o by (rule conjunct2 [THEN conjunct1])
    then have mv: "populateChunkMetadata w tk = Inr mv" using Inr y by simp
    have ev5: "calls s5 = calls s @ evs0" using evs0(1) Inr y by simp
    note lf = refresh_last_frag_or_clear_outcomes [of s5 tk am]
    have after: "\<forall>e s' evs. ?R = Inl (e, s') \<and> calls s' = calls s @ evs \<longrightarrow> ?After e s' evs"
    proof (cases "refresh_last_frag_or_clear s5 tk am")
      case (Inl z)
      obtain e1 s6 where z: "z = (e1, s6)" by (cases z)
      have "e1 = UndefinedBehaviour" "s6 = s5" using lf Inl z by blast+
      then have R: "?R = Inl (UndefinedBehaviour, s5)"
        using en Inr y Inl z by (simp add: refreshTableInCache_def)
      show ?thesis
      proof (intro allI impI)
        fix e s' evs
        assume "?R = Inl (e, s') \<and> calls s' = calls s @ evs"
        then have "e = UndefinedBehaviour" "evs = evs0" using R ev5 by simp_all
        then show "?After e s' evs" using r0 by simp
      qed
    next
      case lr: (Inr z)
      obtain last_frag_id s6 where z: "z = (last_frag_id, s6)" by (cases z)
      let ?T = "refresh_try w s6 tk am last_frag_id mv old"
      have R: "?R = catch_runtime_error ?T"
        using en Inr y lr z by (simp add: refreshTableInCache_def)
      have "calls s6 = calls s5 \<or> calls s6 = calls s5 @ [ClearForTablePrefix tk]"
        using lf lr z by blast
      then have "\<exists>evs1. calls s6 = calls s @ evs1 \<and> raised w evs1 = None"
      proof
        assume "calls s6 = calls s5"
        then show ?thesis using ev5 r0 by simp
      next
        assume "calls s6 = calls s5 @ [ClearForTablePrefix tk]"
        then have "calls s6 = calls s @ (evs0 @ [ClearForTablePrefix tk])" using ev5 by simp
        moreover have "raised w (evs0 @ [ClearForTablePrefix tk]) = None"
          by (simp add: raised_def)
        ultimately show ?thesis by blast
      qed
      then obtain evs1 where "calls s6 = calls s @ evs1" "raised w evs1 = None" by blast
      then have "fails_as_raised w s (Inr ((), s6))" by (rule fails_as_raised_Inr)
      then have T: "fails_as_raised w s ?T"
        using refresh_try_raised by (rule fails_as_raised_seq)
      show ?thesis
      proof (intro allI impI)
        fix e s' evs
        assume a: "?R = Inl (e, s') \<and> calls s' = calls s @ evs"
        then have "catch_runtime_error ?T = Inl (e, s')" "calls s' = calls s @ evs"
          using R by simp_all
        then have k: "(\<forall>ex. raised w evs = Some ex \<longrightarrow> e = rethrown ex) \<and>
         (\<forall>x. e = PostEvictionRefreshException x \<longrightarrow>
              raised w evs = Some x \<and> (\<exists>m. x = StdRuntimeError m)) \<and>
         (\<forall>ex. e = Thrown ex \<longrightarrow> raised w evs = Some ex \<and> (\<exists>m. ex = OtherException m))"
          by (rule catch_runtime_error_raised [OF T])
        have k3: "\<forall>ex. e = Thrown ex \<longrightarrow>
                 raised w evs = Some ex \<and> (\<exists>m. ex = OtherException m) \<or>
                 raised w evs = None \<and> foreign_storage_cache s' = Some c"
          using k [THEN conjunct2, THEN conjunct2] by simp
        show "?After e s' evs"
          using k [THEN conjunct1] k [THEN conjunct2, THEN conjunct1] k3 by (intro conjI)
      qed
    qed
    have scan: "\<forall>ex. populateChunkMetadata w tk = Inl ex \<longrightarrow>
            (\<exists>e s'. ?R = Inl (e, s') \<and> foreign_storage_cache s' = Some c) \<and>
            (isTableKey tk \<and> (\<exists>ft. get_foreign_table w tk = Inr ft) \<and>
             data_wrapper_map s tk \<noteq> None \<longrightarrow>
               ?R = Inl (Thrown ex, emit (PopulateChunkMetadata tk) s))"
      using mv by simp
    from scan after show ?thesis by (rule conjI)
  qed
qed

lemma outcome_Inl: "failure_of r \<noteq> None \<Longrightarrow> r = Inl (the (failure_of r), state_of r)"
  by (auto simp add: failure_of_def state_of_def split: sum.splits)

theorem refreshTableInCache_exceptions_witness:
  "foreign_storage_cache (ex_mgr_with_wrapper (Some ex_hot_cache)) = Some ex_hot_cache \<and>
   populateChunkMetadata ex_scan_fails_world [1, 2] =
     Inl (StdRuntimeError ''populateChunkMetadata mock exception'') \<and>
   isTableKey [1, 2] \<and>
   get_foreign_table ex_scan_fails_world [1, 2] = Inr (ex_table CSV False) \<and>
   data_wrapper_map (ex_mgr_with_wrapper (Some ex_hot_cache)) [1, 2] \<noteq> None \<and>
   refreshTableInCache ex_scan_fails_world (ex_mgr_with_wrapper (Some ex_hot_cache)) [1, 2] =
     Inl (Thrown (StdRuntimeError ''populateChunkMetadata mock exception''),
          emit (PopulateChunkMetadata [1, 2]) (ex_mgr_with_wrapper (Some ex_hot_cache))) \<and>
   getCachedChunkIfExists
     (the (foreign_storage_cache
        (state_of (refreshTableInCache ex_scan_fails_world
                     (ex_mgr_with_wrapper (Some ex_hot_cache)) [1, 2]))))
     [1, 2, 1, 0] = Some (CacheBuffer [1, 2, 1, 0]) \<and>
   foreign_storage_cache (ex_mgr_with_wrapper (Some ex_two_fragment_cache)) =
     Some ex_two_fragment_cache \<and>
   raised (ex_read_fails_world (StdRuntimeError ''populateChunkBuffers mock exception''))
     (calls (state_of
        (refreshTableInCache
           (ex_read_fails_world (StdRuntimeError ''populateChunkBuffers mock exception''))
           (ex_mgr_with_wrapper (Some ex_two_fragment_cache)) [1, 2]))) =
     Some (StdRuntimeError ''populateChunkBuffers mock exception'') \<and>
   failure_of
     (refreshTableInCache
        (ex_read_fails_world (StdRuntimeError ''populateChunkBuffers mock exception''))
        (ex_mgr_with_wrapper (Some ex_two_fragment_cache)) [1, 2]) =
     Some (PostEvictionRefreshException
             (StdRuntimeError ''populateChunkBuffers mock exception''))"
proof -
  let ?s1 = "ex_mgr_with_wrapper (Some ex_hot_cache)"
  let ?ex1 = "StdRuntimeError ''populateChunkMetadata mock exception''"
  let ?R1 = "refreshTableInCache ex_scan_fails_world ?s1 [1, 2]"
  let ?s2 = "ex_mgr_with_wrapper (Some ex_two_fragment_cache)"
  let ?ex2 = "StdRuntimeError ''populateChunkBuffers mock exception''"
  let ?w2 = "ex_read_fails_world ?ex2"
  let ?R2 = "refreshTableInCache ?w2 ?s2 [1, 2]"
  have h1: "foreign_storage_cache ?s1 = Some ex_hot_cache"
    by (simp add: ex_mgr_with_wrapper_def new_ForeignStorageMgr_def)
  have scan: "populateChunkMetadata ex_scan_fails_world [1, 2] = Inl ?ex1"
    by (simp add: ex_scan_fails_world_def)
  have pre: "isTableKey [1, 2]"
    "get_foreign_table ex_scan_fails_world [1, 2] = Inr (ex_table CSV False)"
    "data_wrapper_map ?s1 [1, 2] \<noteq> None"
    by (simp_all add: isTableKey_def get_foreign_table_def ex_scan_fails_world_def ex_world_def
        CHUNK_KEY_DB_IDX_def CHUNK_KEY_TABLE_IDX_def ex_mgr_with_wrapper_def
        new_ForeignStorageMgr_def)
  have R1: "?R1 = Inl (Thrown ?ex1, emit (PopulateChunkMetadata [1, 2]) ?s1)"
    using refreshTableInCache_exceptions [OF h1, of ex_scan_fails_world "[1, 2]"] scan pre
    by simp
  have hit: "getCachedChunkIfExists (the (foreign_storage_cache (state_of ?R1))) [1, 2, 1, 0] =
               Some (CacheBuffer [1, 2, 1, 0])"
    unfolding R1
    by (simp add: state_of_def emit_def getCachedChunkIfExists_def ex_hot_cache_def
        ex_mgr_with_wrapper_def new_ForeignStorageMgr_def)
  have h2: "foreign_storage_cache ?s2 = Some ex_two_fragment_cache"
    by (simp add: ex_mgr_with_wrapper_def new_ForeignStorageMgr_def)
  have f2: "failure_of ?R2 \<noteq> None" by code_simp
  have r2: "raised ?w2 (calls (state_of ?R2)) = Some ?ex2" by code_simp
  have R2: "?R2 = Inl (the (failure_of ?R2), state_of ?R2)" using f2 by (rule outcome_Inl)
  have c2: "calls (state_of ?R2) = calls ?s2 @ calls (state_of ?R2)"
    by (simp add: ex_mgr_with_wrapper_def new_ForeignStorageMgr_def)
  have "the (failure_of ?R2) = rethrown ?ex2"
    using refreshTableInCache_exceptions [OF h2, of ?w2 "[1, 2]"] R2 c2 r2 by blast
  then have F2: "failure_of ?R2 = Some (PostEvictionRefreshException ?ex2)"
    using f2 by (auto simp add: rethrown_def)
  show ?thesis using h1 scan pre R1 hit h2 r2 F2 by simp
qed

text \<open>
  C5 as stated fails for an exception that is not a \<^verbatim>\<open>std::runtime_error\<close>: the wrapper
  throws it while the chunk of fragment 0 is populated again, after the table has been
  cleared, and the refresh fails with that exception, not wrapped.
\<close>

theorem refreshTableInCache_exceptions_counterexample:
  "failure_of
     (refreshTableInCache (ex_read_fails_world (OtherException ''ParquetException''))
        (ex_mgr_with_wrapper (Some ex_two_fragment_cache)) [1, 2]) =
     Some (Thrown (OtherException ''ParquetException'')) \<and>
   calls (state_of
     (refreshTableInCache (ex_read_fails_world (OtherException ''ParquetException''))
        (ex_mgr_with_wrapper (Some ex_two_fragment_cache)) [1, 2])) =
     [PopulateChunkMetadata [1, 2],
      SerializeDataWrapperInternals [1, 2] ''/cache/table/wrapper_metadata.json'',
      ClearForTablePrefix [1, 2],
      CacheMetadataVec [([1, 2, 1, 0], ex_chunk_metadata), ([1, 2, 1, 1], ex_chunk_metadata)],
      GetChunkBuffersForCaching [[1, 2, 1, 0]],
      PopulateChunkBuffers [1, 2] [([1, 2, 1, 0], CacheBuffer [1, 2, 1, 0])]] \<and>
   populateChunkBuffers (ex_read_fails_world (OtherException ''ParquetException'')) [1, 2]
     [([1, 2, 1, 0], CacheBuffer [1, 2, 1, 0])] = Some (OtherException ''ParquetException'')"
  by code_simp

section \<open>Clearing the staging map\<close>















end
